theory Spec2Isabelle
  imports Main "HOL-Library.Word"
begin

unbundle bit_operations_syntax

section \<open>Doremi KLV commands: \<open>dcitools/devices/doremi/commands.py\<close>\<close>

text \<open>
  A shallow embedding of \<open>commands.py\<close>. Python \<open>bytes\<close> are lists of 8-bit words,
  Python integers are \<open>int\<close>, a dictionary is a map or, where its order matters, an
  association list. The module global \<open>REQUEST_ID\<close>, the socket and the log are fields
  of a state record that the functions take and return, and every exception is a value
  of \<open>error\<close>: a function that can raise returns \<open>error + 'a\<close>, with \<open>Inl\<close> the
  exception.
\<close>

type_synonym byte = "8 word"
type_synonym bytes = "byte list"

subsection \<open>Exceptions\<close>

text \<open>
  \<open>IndexError\<close> is what \<open>args[arg_iterator]\<close> raises when the positional arguments are
  used up (the specification calls it MissingArgument); \<open>KeyError\<close> is a failed catalogue
  lookup; \<open>FuncError msg\<close> is any exception raised inside a field's \<open>func\<close>;
  \<open>MalformedLength\<close> and \<open>TransportError\<close> come from the BER reader and the socket;
  \<open>TypeError\<close> is what Python's call binding raises when a keyword argument has the
  name of a parameter that is already bound; \<open>NameError\<close> is the use of a name that
  the module never binds.
\<close>

datatype error =
    IndexError
  | KeyError
  | FuncError string
  | MalformedLength
  | TransportError
  | TypeError
  | NameError

subsection \<open>Python built-ins\<close>

text \<open>
  The slice \<open>xs[lo:hi]\<close> with step 1. A bound is an integer or \<open>None\<close>; a negative bound
  counts from the end, and every bound is clamped to the sequence, so a slice never
  raises.
\<close>

definition py_slice :: "'a list \<Rightarrow> int option \<Rightarrow> int option \<Rightarrow> 'a list" where
  "py_slice xs lo hi =
     (let n = int (length xs);
          i = (case lo of None \<Rightarrow> 0 | Some s \<Rightarrow> if s < 0 then max (s + n) 0 else min s n);
          j = (case hi of None \<Rightarrow> n | Some e \<Rightarrow> if e < 0 then max (e + n) 0 else min e n)
      in take (nat (j - i)) (drop (nat i) xs))"

text \<open>\<open>str(n)\<close> for an integer: decimal digits, with a minus sign when negative.\<close>

fun str_nat :: "nat \<Rightarrow> string" where
  "str_nat n =
     (if n < 10 then [''0123456789'' ! n]
      else str_nat (n div 10) @ [''0123456789'' ! (n mod 10)])"

declare str_nat.simps [simp del]

definition str_int :: "int \<Rightarrow> string" where
  "str_int i = (if i < 0 then CHR ''-'' # str_nat (nat (- i)) else str_nat (nat i))"

text \<open>
  \<open>bytes.fromhex\<close> on a string of hex digit pairs; \<open>None\<close> is its ValueError. (The
  whitespace that Python skips is not modelled: the one literal it is applied to has
  none.)
\<close>

definition hex_value :: "char \<Rightarrow> nat option" where
  "hex_value c =
     (let n = (of_char c :: nat) in
      if 48 \<le> n \<and> n \<le> 57 then Some (n - 48)
      else if 65 \<le> n \<and> n \<le> 70 then Some (n - 55)
      else if 97 \<le> n \<and> n \<le> 102 then Some (n - 87)
      else None)"

fun fromhex :: "string \<Rightarrow> bytes option" where
  "fromhex [] = Some []"
| "fromhex [c] = None"
| "fromhex (c # d # rest) =
     (case hex_value c of
        None \<Rightarrow> None
      | Some h \<Rightarrow>
          (case hex_value d of
             None \<Rightarrow> None
           | Some l \<Rightarrow>
               (case fromhex rest of
                  None \<Rightarrow> None
                | Some bs \<Rightarrow> Some (of_nat (16 * h + l) # bs))))"

text \<open>
  An \<open>OrderedDict\<close> is an association list in insertion order. The assignment
  \<open>result[k] = v\<close> replaces the value of a key that is present, where it stands, and
  appends a new key at the end.
\<close>

fun od_set :: "('k \<times> 'x) list \<Rightarrow> 'k \<Rightarrow> 'x \<Rightarrow> ('k \<times> 'x) list" where
  "od_set [] k v = [(k, v)]"
| "od_set ((k', v') # kvs) k v =
     (if k' = k then (k, v) # kvs else (k', v') # od_set kvs k v)"

subsection \<open>The helpers of \<open>toolbox.bytes\<close>\<close>

text \<open>
  Modelled from the spec: \<open>toolbox.bytes\<close> (\<open>int_to_bytes\<close>, \<open>bytes_to_int\<close>,
  \<open>bytes_to_hex\<close>, \<open>encode_ber\<close>, \<open>decode_ber\<close>, \<open>ber_from_socket\<close>) is a package the
  file imports, and none of it is among the sources. The specification gives: the
  correlation id is encoded as 4 bytes, big-endian; integers in a frame are big-endian;
  the hex rendering has two characters per byte (the ruler of the wire trace marks 8
  characters per 4 bytes); and the BER length field is, for \<open>n < 128\<close>, the single byte
  \<open>n\<close>, and otherwise the byte \<open>0x80 | k\<close> followed by the \<open>k\<close> big-endian bytes of
  \<open>n\<close>, with \<open>k\<close> minimal. Decoding reads one byte; a clear high bit makes it the value,
  a set high bit makes its low 7 bits the number \<open>k\<close> of big-endian bytes that follow,
  and it fails with MalformedLength when fewer than that are there.
\<close>

fun int_to_bytes :: "int \<Rightarrow> nat \<Rightarrow> bytes" where
  "int_to_bytes val 0 = []"
| "int_to_bytes val (Suc n) = int_to_bytes (val div 256) n @ [word_of_int val]"

definition bytes_to_int :: "bytes \<Rightarrow> int" where
  "bytes_to_int bs = foldl (\<lambda>acc b. acc * 256 + uint b) 0 bs"

definition hex_digit :: "nat \<Rightarrow> char" where
  "hex_digit d = ''0123456789abcdef'' ! d"

definition bytes_to_hex :: "bytes \<Rightarrow> string" where
  "bytes_to_hex bs = concat (map (\<lambda>b. [hex_digit (unat b div 16), hex_digit (unat b mod 16)]) bs)"

fun be_bytes :: "nat \<Rightarrow> bytes" where
  "be_bytes n = (if n = 0 then [] else be_bytes (n div 256) @ [of_nat n])"

declare be_bytes.simps [simp del]

definition encode_ber :: "nat \<Rightarrow> bytes" where
  "encode_ber n =
     (if n < 128 then [of_nat n]
      else (let bs = be_bytes n in (0x80 OR of_nat (length bs)) # bs))"

definition decode_ber :: "bytes \<Rightarrow> error + (int \<times> nat)" where
  "decode_ber bs =
     (case bs of
        [] \<Rightarrow> Inl MalformedLength
      | b # rest \<Rightarrow>
          if b < 0x80 then Inr (uint b, 1)
          else (let k = unat (b AND 0x7F) in
                if length rest < k then Inl MalformedLength
                else Inr (bytes_to_int (take k rest), 1 + k)))"

subsection \<open>The fixed header\<close>

text \<open>\<^verbatim>\<open>HEADER = bytes.fromhex('060E2B340205010A0E10010101')\<close>\<close>

definition HEADER :: bytes where
  "HEADER = (case fromhex ''060E2B340205010A0E10010101'' of Some bs \<Rightarrow> bs | None \<Rightarrow> [])"

subsection \<open>Message definitions\<close>

text \<open>
  Modelled from the spec: the class \<open>MessageDefinition\<close> (module \<open>message\<close>) and the
  catalogues \<open>requests\<close> and \<open>responses\<close> are imported and not among the sources; the
  attributes below are the ones \<open>commands.py\<close> reads. An element has a \<open>name\<close>, the
  bounds \<open>start\<close> and \<open>end\<close> of its slice of the payload (written \<open>end'\<close> here),
  its function \<open>func\<close> (the encoder of a request field, the decoder of a response
  field; \<open>Inl msg\<close> is an exception it raises) and an optional dictionary
  \<open>text_translate\<close> from decoded values to texts. A message definition has a name, its
  key and its elements, which may be \<open>None\<close>.
\<close>

record ('a, 'b) element =
  name :: string
  start :: "int option"
  end' :: "int option"
  func :: "'a \<Rightarrow> string + 'b"
  text_translate :: "('b \<times> string) list option"

record ('a, 'b) message_definition =
  def_name :: string
  key :: bytes
  elements :: "('a, 'b) element list option"

text \<open>
  The catalogue lookups \<open>requests.get_by_key\<close> and \<open>responses.get_by_key\<close>, which
  raise KeyError for a key they do not hold. The wire trace calls them with the hex
  string of a key, \<open>receive\<close> calls the second with the key's bytes.
\<close>

record ('v, 'w) catalogues =
  requests_get_by_key_hex :: "string \<rightharpoonup> ('v, bytes) message_definition"
  responses_get_by_key_hex :: "string \<rightharpoonup> (bytes, 'w) message_definition"
  responses_get_by_key :: "bytes \<rightharpoonup> (bytes, 'w) message_definition"

subsection \<open>The state\<close>

text \<open>
  What the functions read and change outside their arguments: the global
  \<open>REQUEST_ID\<close>; the socket, as the bytes the peer delivers that have not been read
  yet (\<open>sock_in\<close>), the buffers handed to \<open>sock.send\<close>, oldest first (\<open>sock_out\<close>),
  and whether it still accepts a write (\<open>sock_up\<close>); and the messages the logging
  collaborator has received, oldest first (\<open>logged\<close>). No function of the file adds to
  the last: see \<open>CommandCall\<close> below.
\<close>

record world =
  REQUEST_ID :: int
  sock_in :: bytes
  sock_out :: "bytes list"
  sock_up :: bool
  logged :: "string list"

text \<open>
  The transport collaborator: \<open>send\<close> takes the whole buffer in one call or fails;
  \<open>receive n\<close> returns exactly \<open>n\<close> bytes or fails, and a length below zero fails.
\<close>

definition sock_send :: "bytes \<Rightarrow> world \<Rightarrow> (error + unit) \<times> world" where
  "sock_send buf w =
     (if sock_up w then (Inr (), w\<lparr>sock_out := sock_out w @ [buf]\<rparr>)
      else (Inl TransportError, w))"

definition sock_receive :: "int \<Rightarrow> world \<Rightarrow> (error + bytes) \<times> world" where
  "sock_receive n w =
     (if n < 0 \<or> int (length (sock_in w)) < n then (Inl TransportError, w)
      else (Inr (take (nat n) (sock_in w)), w\<lparr>sock_in := drop (nat n) (sock_in w)\<rparr>))"

text \<open>
  \<open>toolbox.bytes.ber_from_socket(sock)\<close>: the length field read from the socket, one
  byte and then as many as it announces; it returns the length, the size of the field
  and the field's bytes.
\<close>

definition ber_from_socket :: "world \<Rightarrow> (error + (int \<times> nat \<times> bytes)) \<times> world" where
  "ber_from_socket w =
     (case sock_receive 1 w of
        (Inl e, w1) \<Rightarrow> (Inl e, w1)
      | (Inr first, w1) \<Rightarrow>
          (case first of
             [b] \<Rightarrow>
               if b < 0x80 then (Inr (uint b, 1, [b]), w1)
               else (let k = unat (b AND 0x7F) in
                     case sock_receive (int k) w1 of
                       (Inl e, w2) \<Rightarrow> (Inl e, w2)
                     | (Inr rest, w2) \<Rightarrow> (Inr (bytes_to_int rest, 1 + k, b # rest), w2))
           | _ \<Rightarrow> (Inl TransportError, w1)))"

subsection \<open>The request id counter\<close>

text \<open>
  \<^verbatim>\<open>
  REQUEST_ID = 0

  def get_new_request_id():
      global REQUEST_ID
      REQUEST_ID = (REQUEST_ID + 1) % 60000
      return REQUEST_ID

  def get_new_request_id_bytes():
      return int_to_bytes(get_new_request_id(), size=4)
  \<close>
\<close>

definition REQUEST_ID_init :: int where
  "REQUEST_ID_init = 0"

definition get_new_request_id :: "world \<Rightarrow> int \<times> world" where
  "get_new_request_id w =
     (let w' = w\<lparr>REQUEST_ID := (REQUEST_ID w + 1) mod 60000\<rparr> in (REQUEST_ID w', w'))"

definition get_new_request_id_bytes :: "world \<Rightarrow> bytes \<times> world" where
  "get_new_request_id_bytes w =
     (case get_new_request_id w of (v, w') \<Rightarrow> (int_to_bytes v 4, w'))"

text \<open>\<open>n\<close> successive calls: the values returned, in order, and the final state.\<close>

fun request_ids :: "nat \<Rightarrow> world \<Rightarrow> int list \<times> world" where
  "request_ids 0 w = ([], w)"
| "request_ids (Suc n) w =
     (case get_new_request_id w of
        (v, w') \<Rightarrow> (case request_ids n w' of (vs, w'') \<Rightarrow> (v # vs, w'')))"

subsection \<open>\<open>explain_klv\<close>\<close>

text \<open>
  \<^verbatim>\<open>
  def explain_klv(data):
      header_hex = toolbox.bytes.bytes_to_hex(data[0:13])
      key_hex = toolbox.bytes.bytes_to_hex(data[13:16])
      try:
          key_name = requests.get_by_key(key_hex).name + ' Request'
      except KeyError:
          key_name = responses.get_by_key(key_hex).name + ' Response'
      ber, ber_size = toolbox.bytes.decode_ber(data[16:])
      ber_hex = toolbox.bytes.bytes_to_hex(data[16:16+ber_size])
      payload_start = 16+ber_size
      id_hex = toolbox.bytes.bytes_to_hex(data[payload_start:payload_start+4])
      id = toolbox.bytes.bytes_to_int(data[payload_start:payload_start+4])
      payload = data[payload_start+4:]

      short_hex = toolbox.bytes.bytes_to_hex(payload)
      if len(data) > 40:
          short_hex = short_hex[0:40] + str('...')
      return """...""".format(header_hex, key_hex, key_name, ber_hex, str(ber), id_hex,
                              str(id), short_hex, (header_hex+key_hex+ber_hex+id_hex+short_hex))
  \<close>
  The function is modelled in two steps: \<open>explain_klv_fields\<close> computes the local
  variables that the format string receives, \<open>explain_klv_format\<close> fills the format
  string.
\<close>

record klv_fields =
  header_hex :: string
  key_hex :: string
  key_name :: string
  ber_hex :: string
  ber :: int
  id_hex :: string
  id_int :: int
  short_hex :: string

definition explain_klv_fields ::
  "('v, 'w) catalogues \<Rightarrow> bytes \<Rightarrow> error + klv_fields" where
  "explain_klv_fields cat data =
     (let header_hex0 = bytes_to_hex (py_slice data (Some 0) (Some 13));
          key_hex0 = bytes_to_hex (py_slice data (Some 13) (Some 16))
      in case (case requests_get_by_key_hex cat key_hex0 of
                 Some d \<Rightarrow> Inr (def_name d @ '' Request'')
               | None \<Rightarrow>
                   (case responses_get_by_key_hex cat key_hex0 of
                      Some d \<Rightarrow> Inr (def_name d @ '' Response'')
                    | None \<Rightarrow> Inl KeyError)) of
           Inl e \<Rightarrow> Inl e
         | Inr key_name0 \<Rightarrow>
             (case decode_ber (py_slice data (Some 16) None) of
                Inl e \<Rightarrow> Inl e
              | Inr (ber0, ber_size) \<Rightarrow>
                  (let ber_hex0 = bytes_to_hex (py_slice data (Some 16) (Some (16 + int ber_size)));
                       payload_start = 16 + int ber_size;
                       id_hex0 = bytes_to_hex
                                   (py_slice data (Some payload_start) (Some (payload_start + 4)));
                       id0 = bytes_to_int
                               (py_slice data (Some payload_start) (Some (payload_start + 4)));
                       payload = py_slice data (Some (payload_start + 4)) None;
                       short_hex0 = bytes_to_hex payload;
                       short_hex1 = (if length data > 40
                                     then py_slice short_hex0 (Some 0) (Some 40) @ ''...''
                                     else short_hex0)
                   in Inr \<lparr>header_hex = header_hex0, key_hex = key_hex0, key_name = key_name0,
                           ber_hex = ber_hex0, ber = ber0, id_hex = id_hex0, id_int = id0,
                           short_hex = short_hex1\<rparr>)))"

definition newline :: string where
  "newline = [CHR 0x0A]"

definition explain_klv_format :: "klv_fields \<Rightarrow> string" where
  "explain_klv_format f =
     newline
     @ ''             0.......4.......8.......12......16......20......24......28......32''
     @ newline
     @ ''    Header : '' @ header_hex f @ newline
     @ ''    Key    : '' @ key_hex f @ '' ('' @ key_name f @ '')'' @ newline
     @ ''    Ber    : '' @ ber_hex f @ '' ('' @ str_int (ber f) @ '')'' @ newline
     @ ''    ID     : '' @ id_hex f @ '' ('' @ str_int (id_int f) @ '')'' @ newline
     @ ''    Data   : '' @ short_hex f @ newline
     @ ''    Command: ''
     @ (header_hex f @ key_hex f @ ber_hex f @ id_hex f @ short_hex f) @ newline
     @ ''    ''"

definition explain_klv :: "('v, 'w) catalogues \<Rightarrow> bytes \<Rightarrow> error + string" where
  "explain_klv cat data =
     (case explain_klv_fields cat data of
        Inl e \<Rightarrow> Inl e
      | Inr f \<Rightarrow> Inr (explain_klv_format f))"

subsection \<open>\<open>parse_message\<close>\<close>

text \<open>
  \<^verbatim>\<open>
  def parse_message(message, payload):
      result = collections.OrderedDict()
      if message.elements:
          for elem in message.elements:
              payload_chunk = payload[elem.start:elem.end]
              result[elem.name] = elem.func(payload_chunk)
              if elem.text_translate:
                  result[elem.name+'_text'] = elem.text_translate.get(result[elem.name], 'unknown value')
      return result
  \<close>
  A value of the result is what a decoder returned or a text of a translation table.
  The test \<open>if elem.text_translate:\<close> is Python's truth test: it fails for \<open>None\<close> and
  for the empty dictionary.
\<close>

datatype 'w entry = Decoded 'w | Text string

type_synonym 'w ordered_dict = "(string \<times> 'w entry) list"

definition dict_get :: "('k \<times> 'x) list \<Rightarrow> 'k \<Rightarrow> 'x \<Rightarrow> 'x" where
  "dict_get d k dflt = (case map_of d k of Some x \<Rightarrow> x | None \<Rightarrow> dflt)"

fun parse_elements ::
  "(bytes, 'w) element list \<Rightarrow> bytes \<Rightarrow> 'w ordered_dict \<Rightarrow> error + 'w ordered_dict" where
  "parse_elements [] payload result = Inr result"
| "parse_elements (elem # rest) payload result =
     (let payload_chunk = py_slice payload (start elem) (end' elem)
      in case func elem payload_chunk of
           Inl msg \<Rightarrow> Inl (FuncError msg)
         | Inr v \<Rightarrow>
             (let result1 = od_set result (name elem) (Decoded v)
              in case text_translate elem of
                   None \<Rightarrow> parse_elements rest payload result1
                 | Some [] \<Rightarrow> parse_elements rest payload result1
                 | Some (t # ts) \<Rightarrow>
                     parse_elements rest payload
                       (od_set result1 (name elem @ ''_text'')
                          (Text (dict_get (t # ts) v ''unknown value'')))))"

definition parse_message ::
  "(bytes, 'w) message_definition \<Rightarrow> bytes \<Rightarrow> error + 'w ordered_dict" where
  "parse_message message payload =
     (case elements message of
        None \<Rightarrow> Inr []
      | Some [] \<Rightarrow> Inr []
      | Some (e # es) \<Rightarrow> parse_elements (e # es) payload [])"

subsection \<open>\<open>construct_message\<close>\<close>

text \<open>
  \<^verbatim>\<open>
  def construct_message(message, *args, **kwargs):
      id = get_new_request_id_bytes()
      payload_values = []
      arg_iterator = 0
      if message.elements:
          for element in message.elements:
              if element.name in kwargs.keys():
                  arg = kwargs[element.name]
              else:
                  arg = args[arg_iterator]
                  arg_iterator += 1
              value = element.func(arg)
              payload_values.append(value)
      payload = id + b''.join(payload_values)
      ber = encode_ber(len(payload))
      return bytearray(HEADER + message.key + ber + payload)
  \<close>
  \<open>args\<close> is the tuple of positional arguments and \<open>kwargs\<close> the dictionary of named
  arguments as the body receives them. The loop is \<open>construct_elements\<close>, with the
  loop variables \<open>arg_iterator\<close> and \<open>payload_values\<close> as arguments.
\<close>

fun construct_elements ::
  "('v, bytes) element list \<Rightarrow> 'v list \<Rightarrow> (string \<rightharpoonup> 'v) \<Rightarrow> nat \<Rightarrow> bytes list
     \<Rightarrow> error + bytes list" where
  "construct_elements [] args kwargs arg_iterator payload_values = Inr payload_values"
| "construct_elements (element # rest) args kwargs arg_iterator payload_values =
     (case kwargs (name element) of
        Some arg \<Rightarrow>
          (case func element arg of
             Inl msg \<Rightarrow> Inl (FuncError msg)
           | Inr v \<Rightarrow> construct_elements rest args kwargs arg_iterator (payload_values @ [v]))
      | None \<Rightarrow>
          if arg_iterator < length args then
            (case func element (args ! arg_iterator) of
               Inl msg \<Rightarrow> Inl (FuncError msg)
             | Inr v \<Rightarrow>
                 construct_elements rest args kwargs (arg_iterator + 1) (payload_values @ [v]))
          else Inl IndexError)"

definition construct_message ::
  "world \<Rightarrow> ('v, bytes) message_definition \<Rightarrow> 'v list \<Rightarrow> (string \<rightharpoonup> 'v)
     \<Rightarrow> (error + bytes) \<times> world" where
  "construct_message w message args kwargs =
     (case get_new_request_id_bytes w of
        (id_bytes, w') \<Rightarrow>
          (case (case elements message of
                   None \<Rightarrow> Inr []
                 | Some [] \<Rightarrow> Inr []
                 | Some (e # es) \<Rightarrow> construct_elements (e # es) args kwargs 0 []) of
             Inl err \<Rightarrow> (Inl err, w')
           | Inr payload_values \<Rightarrow>
               (let payload = id_bytes @ concat payload_values;
                    ber_bytes = encode_ber (length payload)
                in (Inr (HEADER @ key message @ ber_bytes @ payload), w'))))"

text \<open>
  The definition above is the body of the function. A call
  \<open>construct_message(message, *args, **kwargs)\<close> first binds its arguments: the first
  positional argument is bound to the parameter \<open>message\<close>, so a keyword argument
  named \<open>message\<close> is a second value for it, and Python raises TypeError before the
  body runs (the request id is not touched). Every other keyword goes into \<open>kwargs\<close>.
\<close>

definition construct_message_call ::
  "world \<Rightarrow> ('v, bytes) message_definition \<Rightarrow> 'v list \<Rightarrow> (string \<rightharpoonup> 'v)
     \<Rightarrow> (error + bytes) \<times> world" where
  "construct_message_call w message args keywords =
     (case keywords ''message'' of
        Some x \<Rightarrow> (Inl TypeError, w)
      | None \<Rightarrow> construct_message w message args keywords)"

subsection \<open>\<open>CommandCall\<close>\<close>

text \<open>
  The attributes of a \<open>CommandCall\<close>; its socket is the one of the state.
  \<^verbatim>\<open>
  def send(self, *args, **kwargs):
      request_bin = construct_message(self.request_definition, *args, **kwargs)
      self.sock.send(request_bin)
      if self.debug:
          logging.debug("REQUEST SENT TO %s:%d : \n%s" % (self.host, self.port, explain_klv(request_bin)))
      return 0

  def receive(self):
      response_header = self.sock.receive(13)
      response_key = self.sock.receive(3)
      response_payload_size, ber_size, response_ber = toolbox.bytes.ber_from_socket(self.sock)
      response_id = self.sock.receive(4)
      response_payload = self.sock.receive(response_payload_size-4)
      response_definition = responses.get_by_key(response_key)
      if self.debug:
          full_message = response_header+response_key+response_ber+response_id+response_payload
          result = response_payload[-1] if len(response_payload) > 0 else '---'
          logging.debug("RESPONSE RECEIVE FROM %s:%d :\n RESPONSE %s %sResult : %s\n" % (
              self.host, self.port, response_definition.name, explain_klv(full_message), result))
      return parse_message(response_definition, response_payload)
  \<close>
  The file never binds the name \<open>logging\<close>: its imports are \<open>toolbox\<close>,
  \<open>collections\<close>, the names of \<open>toolbox.bytes\<close> (which has no such name),
  \<open>MessageDefinition\<close>, \<open>requests\<close> and \<open>responses\<close>. With \<open>self.debug\<close> set, the
  statement \<open>logging.debug(...)\<close> therefore raises NameError when it looks the name up,
  which is before its argument, and with it \<open>explain_klv\<close>, is evaluated: nothing is
  rendered and nothing is logged. In \<open>send\<close> this happens after the frame has been
  handed to the socket, in \<open>receive\<close> after the response has been read and its
  schema looked up.

  \<open>send\<close> is called as a method with \<open>*args\<close> and \<open>**kwargs\<close>: a keyword argument
  named \<open>self\<close> is a second value for its first parameter and raises TypeError before
  the body runs, and the body calls \<open>construct_message\<close> with the same keywords.
\<close>

record 'v command_call =
  key_or_name :: string
  request_definition :: "('v, bytes) message_definition"
  debug :: bool
  host :: string
  port :: int

definition send ::
  "'v command_call \<Rightarrow> 'v list \<Rightarrow> (string \<rightharpoonup> 'v) \<Rightarrow> world \<Rightarrow> (error + int) \<times> world" where
  "send self args kwargs w =
     (case kwargs ''self'' of
        Some x \<Rightarrow> (Inl TypeError, w)
      | None \<Rightarrow>
     (case construct_message_call w (request_definition self) args kwargs of
        (Inl e, w1) \<Rightarrow> (Inl e, w1)
      | (Inr request_bin, w1) \<Rightarrow>
          (case sock_send request_bin w1 of
             (Inl e, w2) \<Rightarrow> (Inl e, w2)
           | (Inr u, w2) \<Rightarrow>
               if debug self then (Inl NameError, w2)
               else (Inr 0, w2))))"

definition receive ::
  "('v, 'w) catalogues \<Rightarrow> 'v command_call \<Rightarrow> world \<Rightarrow> (error + 'w ordered_dict) \<times> world" where
  "receive cat self w =
     (case sock_receive 13 w of
        (Inl e, w1) \<Rightarrow> (Inl e, w1)
      | (Inr response_header, w1) \<Rightarrow>
     (case sock_receive 3 w1 of
        (Inl e, w2) \<Rightarrow> (Inl e, w2)
      | (Inr response_key, w2) \<Rightarrow>
     (case ber_from_socket w2 of
        (Inl e, w3) \<Rightarrow> (Inl e, w3)
      | (Inr (response_payload_size, ber_size, response_ber), w3) \<Rightarrow>
     (case sock_receive 4 w3 of
        (Inl e, w4) \<Rightarrow> (Inl e, w4)
      | (Inr response_id, w4) \<Rightarrow>
     (case sock_receive (response_payload_size - 4) w4 of
        (Inl e, w5) \<Rightarrow> (Inl e, w5)
      | (Inr response_payload, w5) \<Rightarrow>
     (case responses_get_by_key cat response_key of
        None \<Rightarrow> (Inl KeyError, w5)
      | Some response_definition \<Rightarrow>
          if debug self then (Inl NameError, w5)
          else (parse_message response_definition response_payload, w5)))))))"

section \<open>The vocabulary of the properties\<close>

text \<open>
  The definitions of this section are not code of the program: they state, in the
  words of the specification and of the claims, what the properties below compare the
  program with, and they fix the examples the properties are tried on.
\<close>

text \<open>
  The elements a loop runs over: none when \<open>message.elements\<close> is \<open>None\<close> or empty.
\<close>

definition elements_of :: "('a, 'b) message_definition \<Rightarrow> ('a, 'b) element list" where
  "elements_of message = (case elements message of None \<Rightarrow> [] | Some es \<Rightarrow> es)"

text \<open>
  The value of field \<open>i\<close> as the specification resolves it: the named argument of the
  field's name if there is one, otherwise the next unused positional argument, which
  is the one whose index is the number of earlier fields without a named argument;
  \<open>None\<close> when the positional arguments do not reach that far.
\<close>

definition unnamed_before :: "('v, 'b) element list \<Rightarrow> (string \<rightharpoonup> 'v) \<Rightarrow> nat \<Rightarrow> nat" where
  "unnamed_before es kwargs i = length (filter (\<lambda>e. kwargs (name e) = None) (take i es))"

definition resolved :: "('v, 'b) element list \<Rightarrow> 'v list \<Rightarrow> (string \<rightharpoonup> 'v) \<Rightarrow> nat \<Rightarrow> 'v option" where
  "resolved es args kwargs i =
     (case kwargs (name (es ! i)) of
        Some v \<Rightarrow> Some v
      | None \<Rightarrow>
          if unnamed_before es kwargs i < length args
          then Some (args ! unnamed_before es kwargs i) else None)"

text \<open>
  What becomes of field \<open>i\<close> taken alone: IndexError when no value resolves, the
  exception of its \<open>func\<close>, or the bytes \<open>func\<close> returns.
\<close>

definition field_result ::
  "('v, 'b) element list \<Rightarrow> 'v list \<Rightarrow> (string \<rightharpoonup> 'v) \<Rightarrow> nat \<Rightarrow> error + 'b" where
  "field_result es args kwargs i =
     (case resolved es args kwargs i of
        None \<Rightarrow> Inl IndexError
      | Some v \<Rightarrow> (case func (es ! i) v of Inl msg \<Rightarrow> Inl (FuncError msg) | Inr b \<Rightarrow> Inr b))"

text \<open>The outcomes of a sequence of steps that stops at the first failure.\<close>

fun first_failure :: "('e + 'b) list \<Rightarrow> 'e + 'b list" where
  "first_failure [] = Inr []"
| "first_failure (Inl e # rs) = Inl e"
| "first_failure (Inr b # rs) = (case first_failure rs of Inl e \<Rightarrow> Inl e | Inr bs \<Rightarrow> Inr (b # bs))"

text \<open>
  The loop of \<open>construct_message\<close> with the positional arguments consumed from the
  front of the list, as a stepping stone of the proofs.
\<close>

fun consume_args ::
  "('v, 'b) element list \<Rightarrow> 'v list \<Rightarrow> (string \<rightharpoonup> 'v) \<Rightarrow> error + 'b list" where
  "consume_args [] args kwargs = Inr []"
| "consume_args (e # es) args kwargs =
     (case kwargs (name e) of
        Some arg \<Rightarrow>
          (case func e arg of
             Inl msg \<Rightarrow> Inl (FuncError msg)
           | Inr v \<Rightarrow> (case consume_args es args kwargs of Inl x \<Rightarrow> Inl x | Inr bs \<Rightarrow> Inr (v # bs)))
      | None \<Rightarrow>
          (case args of
             [] \<Rightarrow> Inl IndexError
           | a # rest \<Rightarrow>
               (case func e a of
                  Inl msg \<Rightarrow> Inl (FuncError msg)
                | Inr v \<Rightarrow>
                    (case consume_args es rest kwargs of Inl x \<Rightarrow> Inl x | Inr bs \<Rightarrow> Inr (v # bs)))))"

text \<open>The id the next request gets.\<close>

definition correlation_id :: "world \<Rightarrow> int" where
  "correlation_id w = (REQUEST_ID w + 1) mod 60000"

subsection \<open>Examples\<close>

text \<open>
  A state at process start with an open socket, and the request of the
  specification's end-to-end scenario: key AA BB CC, the fields \<open>a\<close> (32 bits) and
  \<open>b\<close> (8 bits), with encoders that raise on a value out of range.
\<close>

definition example_world :: world where
  "example_world = \<lparr>REQUEST_ID = 0, sock_in = [], sock_out = [], sock_up = True, logged = []\<rparr>"

definition encode_uint :: "nat \<Rightarrow> int \<Rightarrow> string + bytes" where
  "encode_uint n v =
     (if 0 \<le> v \<and> v < 256 ^ n then Inr (int_to_bytes v n) else Inl ''value out of range'')"

definition example_request :: "(int, bytes) message_definition" where
  "example_request =
     \<lparr>def_name = ''Example'', key = [0xAA, 0xBB, 0xCC],
      elements = Some
        [\<lparr>name = ''a'', start = Some 0, end' = Some 4, func = encode_uint 4,
          text_translate = None\<rparr>,
         \<lparr>name = ''b'', start = Some 4, end' = Some 5, func = encode_uint 1,
          text_translate = None\<rparr>]\<rparr>"

subsection \<open>The vocabulary of \<open>parse_message\<close>\<close>

text \<open>
  What the decoder of a field returns on its slice of the payload, with the exception
  it raises wrapped as the program sees it.
\<close>

definition decode_field :: "bytes \<Rightarrow> (bytes, 'w) element \<Rightarrow> error + 'w" where
  "decode_field payload e =
     (case func e (py_slice payload (start e) (end' e)) of
        Inl msg \<Rightarrow> Inl (FuncError msg)
      | Inr v \<Rightarrow> Inr v)"

text \<open>
  The bindings one field adds, in the order the loop makes them: its name, bound to
  the decoded value, and, when its translation table passes Python's truth test (it is
  neither \<open>None\<close> nor empty), its name followed by \<open>_text\<close>, bound to the table's text
  for the value or to \<open>unknown value\<close>. \<open>entry_keys\<close> are the keys of these
  bindings, \<open>all_entries\<close> the bindings of all fields in schema order.
\<close>

definition text_entries :: "('a, 'w) element \<Rightarrow> 'w \<Rightarrow> 'w ordered_dict" where
  "text_entries e v =
     (case text_translate e of
        None \<Rightarrow> []
      | Some [] \<Rightarrow> []
      | Some (t # ts) \<Rightarrow>
          [(name e @ ''_text'',
            Text (case map_of (t # ts) v of Some s \<Rightarrow> s | None \<Rightarrow> ''unknown value''))])"

definition field_entries :: "('a, 'w) element \<Rightarrow> 'w \<Rightarrow> 'w ordered_dict" where
  "field_entries e v = (name e, Decoded v) # text_entries e v"

definition entry_keys :: "('a, 'w) element \<Rightarrow> string list" where
  "entry_keys e =
     name e # (case text_translate e of None \<Rightarrow> [] | Some [] \<Rightarrow> [] | Some (t # ts) \<Rightarrow> [name e @ ''_text''])"

definition all_entries :: "('a, 'w) element list \<Rightarrow> 'w list \<Rightarrow> 'w ordered_dict" where
  "all_entries es vs = concat (map (\<lambda>(e, v). field_entries e v) (zip es vs))"

text \<open>
  The bindings of a field as the claims C2 and C4 state them: the \<open>_text\<close> binding is
  there whenever the field has a table, also an empty one.
\<close>

definition claimed_entries :: "('a, 'w) element \<Rightarrow> 'w \<Rightarrow> 'w ordered_dict" where
  "claimed_entries e v =
     (name e, Decoded v) #
     (case text_translate e of
        None \<Rightarrow> []
      | Some table \<Rightarrow>
          [(name e @ ''_text'',
            Text (case map_of table v of Some s \<Rightarrow> s | None \<Rightarrow> ''unknown value''))])"

text \<open>A sequence of assignments \<open>result[k] = x\<close>, in order.\<close>

definition od_assign :: "('k \<times> 'x) list \<Rightarrow> ('k \<times> 'x) list \<Rightarrow> ('k \<times> 'x) list" where
  "od_assign d kvs = foldl (\<lambda>d (k, x). od_set d k x) d kvs"

text \<open>
  A request schema and a response schema that describe the same fields: the names
  agree, the slices lie one after the other from the offset \<open>off\<close>, every encoder
  returns exactly as many bytes as its slice has, and the decoder gives back the value
  that was encoded.
\<close>

fun codec_consistent ::
  "int \<Rightarrow> ('v, bytes) element list \<Rightarrow> (bytes, 'v) element list \<Rightarrow> bool" where
  "codec_consistent off [] [] = True"
| "codec_consistent off (e # es) (d # ds) =
     (name d = name e \<and> start d = Some off \<and>
      (case end' d of
         None \<Rightarrow> False
       | Some hi \<Rightarrow>
           (\<forall>v b. func e v = Inr b \<longrightarrow> int (length b) = hi - off \<and> func d b = Inr v)
           \<and> codec_consistent hi es ds))"
| "codec_consistent off [] (d # ds) = False"
| "codec_consistent off (e # es) [] = False"

text \<open>
  The response of the example request, whose field \<open>b\<close> has a translation table; the
  same response with an empty table; and a request and a response whose two fields
  have the same name.
\<close>

definition decode_uint :: "bytes \<Rightarrow> string + int" where
  "decode_uint b = Inr (bytes_to_int b)"

definition example_response :: "(bytes, int) message_definition" where
  "example_response =
     \<lparr>def_name = ''Example'', key = [0xAA, 0xBB, 0xCC],
      elements = Some
        [\<lparr>name = ''a'', start = Some 0, end' = Some 4, func = decode_uint,
          text_translate = None\<rparr>,
         \<lparr>name = ''b'', start = Some 4, end' = Some 5, func = decode_uint,
          text_translate = Some [(0, ''off''), (7, ''on'')]\<rparr>]\<rparr>"

definition example_response_empty_table :: "(bytes, int) message_definition" where
  "example_response_empty_table =
     \<lparr>def_name = ''Example'', key = [0xAA, 0xBB, 0xCC],
      elements = Some
        [\<lparr>name = ''a'', start = Some 0, end' = Some 4, func = decode_uint,
          text_translate = None\<rparr>,
         \<lparr>name = ''b'', start = Some 4, end' = Some 5, func = decode_uint,
          text_translate = Some []\<rparr>]\<rparr>"

definition example_request_same_name :: "(int, bytes) message_definition" where
  "example_request_same_name =
     \<lparr>def_name = ''Example'', key = [0xAA, 0xBB, 0xCC],
      elements = Some
        [\<lparr>name = ''a'', start = Some 0, end' = Some 4, func = encode_uint 4,
          text_translate = None\<rparr>,
         \<lparr>name = ''a'', start = Some 4, end' = Some 5, func = encode_uint 1,
          text_translate = None\<rparr>]\<rparr>"

definition example_response_same_name :: "(bytes, int) message_definition" where
  "example_response_same_name =
     \<lparr>def_name = ''Example'', key = [0xAA, 0xBB, 0xCC],
      elements = Some
        [\<lparr>name = ''a'', start = Some 0, end' = Some 4, func = decode_uint,
          text_translate = None\<rparr>,
         \<lparr>name = ''a'', start = Some 4, end' = Some 5, func = decode_uint,
          text_translate = None\<rparr>]\<rparr>"

subsection \<open>The vocabulary of the transport properties\<close>

text \<open>
  A complete BER length field, as \<open>ber_from_socket\<close> reads it: one byte below \<open>0x80\<close>,
  or a byte with the high bit set followed by as many bytes as its low 7 bits say; and
  the length such a field announces.
\<close>

definition ber_field :: "bytes \<Rightarrow> bool" where
  "ber_field b =
     (case b of
        [] \<Rightarrow> False
      | c # cs \<Rightarrow> if c < 0x80 then cs = [] else length cs = unat (c AND 0x7F))"

definition ber_length :: "bytes \<Rightarrow> int" where
  "ber_length b = (case b of [] \<Rightarrow> 0 | c # cs \<Rightarrow> if c < 0x80 then uint c else bytes_to_int cs)"

text \<open>
  What \<open>receive\<close> returns once the socket has delivered a header, the key \<open>k\<close>, the
  length field \<open>b\<close>, a correlation id and then \<open>rest\<close>: a function of the key, the
  length field and the bytes after the id.
\<close>

definition receive_value ::
  "('v, 'w) catalogues \<Rightarrow> 'v command_call \<Rightarrow> bytes \<Rightarrow> bytes \<Rightarrow> bytes \<Rightarrow> error + 'w ordered_dict"
  where
  "receive_value cat self k b rest =
     (if ber_length b - 4 < 0 \<or> int (length rest) < ber_length b - 4 then Inl TransportError
      else case responses_get_by_key cat k of
             None \<Rightarrow> Inl KeyError
           | Some d \<Rightarrow>
               if debug self then Inl NameError
               else parse_message d (take (nat (ber_length b - 4)) rest))"

text \<open>
  Catalogues that know the example request and the example response, a frame of 41
  bytes with a payload of 20 bytes, the frame of 26 bytes that the example request is
  built into, and a \<open>CommandCall\<close> for the example request.
\<close>

definition example_catalogues :: "(int, int) catalogues" where
  "example_catalogues =
     \<lparr>requests_get_by_key_hex = [''aabbcc'' \<mapsto> example_request],
      responses_get_by_key_hex = [''ddeeff'' \<mapsto> example_response],
      responses_get_by_key = [[0xDD, 0xEE, 0xFF] \<mapsto> example_response]\<rparr>"

definition example_response_catalogues :: "(int, int) catalogues" where
  "example_response_catalogues =
     \<lparr>requests_get_by_key_hex = Map.empty,
      responses_get_by_key_hex = [''aabbcc'' \<mapsto> example_response],
      responses_get_by_key = [[0xAA, 0xBB, 0xCC] \<mapsto> example_response]\<rparr>"

definition example_frame_41 :: bytes where
  "example_frame_41 =
     [0x06, 0x0E, 0x2B, 0x34, 0x02, 0x05, 0x01, 0x0A, 0x0E, 0x10, 0x01, 0x01, 0x01,
      0xAA, 0xBB, 0xCC, 24, 0, 0, 0, 1,
      1, 2, 3, 4, 5, 6, 7, 8, 9, 10, 11, 12, 13, 14, 15, 16, 17, 18, 19, 20]"

definition example_frame_26 :: bytes where
  "example_frame_26 =
     [0x06, 0x0E, 0x2B, 0x34, 0x02, 0x05, 0x01, 0x0A, 0x0E, 0x10, 0x01, 0x01, 0x01,
      0xAA, 0xBB, 0xCC, 9, 0, 0, 0, 1, 0, 0, 0, 42, 7]"

definition example_call :: "bool \<Rightarrow> int command_call" where
  "example_call dbg =
     \<lparr>key_or_name = ''Example'', request_definition = example_request, debug = dbg,
      host = ''10.0.0.7'', port = 11730\<rparr>"

section \<open>Properties\<close>

subsection \<open>The request id counter\<close>

lemma request_ids_from:
  "request_ids n w =
     (map (\<lambda>k. (REQUEST_ID w + 1 + int k) mod 60000) [0..<n],
      if n = 0 then w else w\<lparr>REQUEST_ID := (REQUEST_ID w + int n) mod 60000\<rparr>)"
proof (induction n arbitrary: w)
  case 0
  show ?case by simp
next
  case (Suc n)
  define r where "r = REQUEST_ID w"
  have upt: "[0..<Suc n] = 0 # map Suc [0..<n]"
    by (simp only: map_Suc_upt upt_conv_Cons [of 0 "Suc n", OF zero_less_Suc])
  have pt: "((r + 1) mod 60000 + 1 + int k) mod 60000 = (r + 1 + int (Suc k)) mod 60000" for k
  proof -
    have "((r + 1) mod 60000 + (1 + int k)) mod 60000 = ((r + 1) + (1 + int k)) mod 60000"
      by (rule mod_add_left_eq)
    then show ?thesis by (simp add: algebra_simps)
  qed
  have shift: "map (\<lambda>k. (r + 1 + int k) mod 60000) [0..<Suc n] =
               (r + 1) mod 60000 # map (\<lambda>k. ((r + 1) mod 60000 + 1 + int k) mod 60000) [0..<n]"
    unfolding upt by (simp add: comp_def pt del: of_nat_Suc)
  have last: "((r + 1) mod 60000 + int n) mod 60000 = (r + int (Suc n)) mod 60000"
  proof -
    have "((r + 1) mod 60000 + int n) mod 60000 = ((r + 1) + int n) mod 60000"
      by (rule mod_add_left_eq)
    then show ?thesis by (simp add: algebra_simps)
  qed
  show ?case
    unfolding r_def [symmetric] shift
    by (simp add: Suc.IH get_new_request_id_def Let_def last r_def [symmetric]
          del: upt_Suc of_nat_Suc) simp
qed

lemma cycle_values:
  "map (\<lambda>k. (1 + int k) mod 60000) [0..<60000] = map int [1..<60000] @ [0]"
proof -
  have a: "[0..<Suc 59999] = [0..<59999] @ [59999]"
    by (rule upt_Suc_append) simp
  have b: "map (\<lambda>k. (1 + int k) mod 60000) [0..<59999] = map (int \<circ> Suc) [0..<59999]"
    by (rule map_cong) simp_all
  have c: "map (int \<circ> Suc) [0..<59999] = map int [Suc 0..<Suc 59999]"
    by (simp only: map_Suc_upt [symmetric] map_map)
  have d: "Suc 59999 = 60000" by simp
  have "map (\<lambda>k. (1 + int k) mod 60000) [0..<Suc 59999] = map int [Suc 0..<Suc 59999] @ [0]"
    unfolding a by (simp only: map_append b c) simp
  then show ?thesis unfolding d by (simp only: One_nat_def)
qed

text \<open>
  C5. From the initial counter 0, the first 60000 calls return 1, 2, ..., 59999, 0 and
  leave the counter at 0 again, so that the cycle repeats; in general call number k + 1
  returns (1 + k) mod 60000. Every returned value lies in [0, 59999], and a call sets
  the counter to its old value plus one modulo 60000 and returns the new counter.
\<close>

theorem get_new_request_id_cycle:
  "request_ids 60000 (w\<lparr>REQUEST_ID := REQUEST_ID_init\<rparr>) =
     (map int [1..<60000] @ [0], w\<lparr>REQUEST_ID := REQUEST_ID_init\<rparr>)
   \<and> fst (request_ids n (w\<lparr>REQUEST_ID := REQUEST_ID_init\<rparr>)) =
       map (\<lambda>k. (1 + int k) mod 60000) [0..<n]
   \<and> 0 \<le> fst (get_new_request_id w) \<and> fst (get_new_request_id w) < 60000
   \<and> snd (get_new_request_id w) = w\<lparr>REQUEST_ID := (REQUEST_ID w + 1) mod 60000\<rparr>
   \<and> fst (get_new_request_id w) = REQUEST_ID (snd (get_new_request_id w))"
proof -
  have "request_ids 60000 (w\<lparr>REQUEST_ID := REQUEST_ID_init\<rparr>) =
          (map (\<lambda>k. (1 + int k) mod 60000) [0..<60000], w\<lparr>REQUEST_ID := REQUEST_ID_init\<rparr>)"
    unfolding request_ids_from REQUEST_ID_init_def by simp
  then have cycle:
    "request_ids 60000 (w\<lparr>REQUEST_ID := REQUEST_ID_init\<rparr>) =
       (map int [1..<60000] @ [0], w\<lparr>REQUEST_ID := REQUEST_ID_init\<rparr>)"
    by (simp only: cycle_values)
  have nth: "fst (request_ids n (w\<lparr>REQUEST_ID := REQUEST_ID_init\<rparr>)) =
       map (\<lambda>k. (1 + int k) mod 60000) [0..<n]"
    by (simp add: request_ids_from REQUEST_ID_init_def)
  have step: "0 \<le> fst (get_new_request_id w)" "fst (get_new_request_id w) < 60000"
    "snd (get_new_request_id w) = w\<lparr>REQUEST_ID := (REQUEST_ID w + 1) mod 60000\<rparr>"
    "fst (get_new_request_id w) = REQUEST_ID (snd (get_new_request_id w))"
    by (simp_all add: get_new_request_id_def Let_def)
  from cycle nth step show ?thesis by blast
qed

subsection \<open>The loop of \<open>construct_message\<close>\<close>

text \<open>
  The loop with its two counters is the list recursion \<open>consume_args\<close>, and that is
  the per-field outcomes \<open>field_result\<close> taken in schema order up to the first failure.
\<close>

lemma construct_elements_consume:
  "construct_elements es args kwargs it acc =
     (case consume_args es (drop it args) kwargs of Inl x \<Rightarrow> Inl x | Inr bs \<Rightarrow> Inr (acc @ bs))"
proof (induction es arbitrary: it acc)
  case Nil
  show ?case by simp
next
  case (Cons e es)
  show ?case
  proof (cases "kwargs (name e)")
    case (Some arg)
    then show ?thesis
      by (simp add: Cons.IH split: sum.splits)
  next
    case None
    show ?thesis
    proof (cases "it < length args")
      case True
      then have "drop it args = args ! it # drop (Suc it) args"
        by (simp add: Cons_nth_drop_Suc)
      with None True show ?thesis
        by (simp add: Cons.IH split: sum.splits)
    next
      case False
      with None show ?thesis by simp
    qed
  qed
qed

lemma field_result_0:
  "field_result (e # es) args kwargs 0 =
     (case kwargs (name e) of
        Some arg \<Rightarrow> (case func e arg of Inl msg \<Rightarrow> Inl (FuncError msg) | Inr b \<Rightarrow> Inr b)
      | None \<Rightarrow>
          (case args of
             [] \<Rightarrow> Inl IndexError
           | a # rest \<Rightarrow> (case func e a of Inl msg \<Rightarrow> Inl (FuncError msg) | Inr b \<Rightarrow> Inr b)))"
  by (simp add: field_result_def resolved_def unnamed_before_def split: option.splits list.splits)

lemma unnamed_before_Suc:
  "unnamed_before (e # es) kwargs (Suc i) =
     (if kwargs (name e) = None then Suc (unnamed_before es kwargs i)
      else unnamed_before es kwargs i)"
  by (simp add: unnamed_before_def)

lemma resolved_Suc_named:
  "kwargs (name e) = Some arg \<Longrightarrow>
   resolved (e # es) args kwargs (Suc i) = resolved es args kwargs i"
  by (simp add: resolved_def unnamed_before_Suc split: option.splits)

lemma resolved_Suc_unnamed:
  "kwargs (name e) = None \<Longrightarrow>
   resolved (e # es) (a # rest) kwargs (Suc i) = resolved es rest kwargs i"
  by (simp add: resolved_def unnamed_before_Suc split: option.splits)

lemma field_result_Suc_named:
  "kwargs (name e) = Some arg \<Longrightarrow>
   field_result (e # es) args kwargs (Suc i) = field_result es args kwargs i"
  by (simp add: field_result_def resolved_Suc_named split: option.splits)

lemma field_result_Suc_unnamed:
  "kwargs (name e) = None \<Longrightarrow>
   field_result (e # es) (a # rest) kwargs (Suc i) = field_result es rest kwargs i"
  by (simp add: field_result_def resolved_Suc_unnamed split: option.splits)

lemma upt_0_Suc: "[0..<Suc n] = 0 # map Suc [0..<n]"
  by (simp only: map_Suc_upt upt_conv_Cons [of 0 "Suc n", OF zero_less_Suc])

lemma consume_args_field_results:
  "consume_args es args kwargs =
     first_failure (map (field_result es args kwargs) [0..<length es])"
proof (induction es arbitrary: args)
  case Nil
  show ?case by simp
next
  case (Cons e es)
  have idx: "map (field_result (e # es) args kwargs) [0..<length (e # es)] =
      field_result (e # es) args kwargs 0
        # map (\<lambda>i. field_result (e # es) args kwargs (Suc i)) [0..<length es]"
    by (simp add: upt_0_Suc comp_def del: upt_Suc)
  show ?case
  proof (cases "kwargs (name e)")
    case (Some arg)
    then show ?thesis
      unfolding idx
      by (simp add: field_result_0 field_result_Suc_named Cons.IH split: sum.splits)
  next
    case None
    show ?thesis
    proof (cases args)
      case Nil
      with None show ?thesis unfolding idx by (simp add: field_result_0)
    next
      case (Cons a rest)
      with None show ?thesis
        unfolding idx
        by (simp add: field_result_0 field_result_Suc_unnamed Cons.IH split: sum.splits)
    qed
  qed
qed

lemma construct_elements_field_results:
  "construct_elements es args kwargs 0 [] =
     first_failure (map (field_result es args kwargs) [0..<length es])"
  by (simp add: construct_elements_consume consume_args_field_results split: sum.splits)

lemma first_failure_Inr:
  "first_failure rs = Inr bs \<longleftrightarrow> rs = map Inr bs"
proof (induction rs arbitrary: bs)
  case Nil
  show ?case by auto
next
  case (Cons r rs)
  show ?case
  proof (cases r)
    case (Inl e)
    then show ?thesis by auto
  next
    case (Inr b)
    show ?thesis
    proof (cases "first_failure rs")
      case (Inl e)
      with Cons.IH have "rs \<noteq> map Inr cs" for cs by auto
      with Inl Inr show ?thesis by auto
    next
      case inr: (Inr cs)
      with Cons.IH [of cs] have "rs = map Inr cs" by simp
      with inr Inr show ?thesis by auto
    qed
  qed
qed

lemma first_failure_Inl:
  "first_failure rs = Inl e \<longleftrightarrow>
     (\<exists>i<length rs. rs ! i = Inl e \<and> (\<forall>j<i. \<exists>b. rs ! j = Inr b))"
proof (induction rs rule: first_failure.induct)
  case 1
  show ?case by simp
next
  case (2 e' rs)
  show ?case
  proof
    assume "first_failure (Inl e' # rs) = Inl e"
    then have "e' = e" by simp
    then show "\<exists>i<length (Inl e' # rs). (Inl e' # rs) ! i = Inl e \<and> (\<forall>j<i. \<exists>b. (Inl e' # rs) ! j = Inr b)"
      by (intro exI [of _ 0]) simp
  next
    assume "\<exists>i<length (Inl e' # rs). (Inl e' # rs) ! i = Inl e \<and> (\<forall>j<i. \<exists>b. (Inl e' # rs) ! j = Inr b)"
    then obtain i where i: "i < length (Inl e' # rs)" "(Inl e' # rs) ! i = Inl e"
      "\<forall>j<i. \<exists>b. (Inl e' # rs) ! j = Inr b" by blast
    have "i = 0"
    proof (rule ccontr)
      assume "i \<noteq> 0"
      then have "0 < i" by simp
      with i(3) obtain b where "(Inl e' # rs) ! 0 = Inr b" by blast
      then show False by simp
    qed
    with i(2) show "first_failure (Inl e' # rs) = Inl e" by simp
  qed
next
  case (3 b rs)
  show ?case
  proof
    assume "first_failure (Inr b # rs) = Inl e"
    then have "first_failure rs = Inl e" by (simp split: sum.splits)
    with 3 obtain i where i: "i < length rs" "rs ! i = Inl e" "\<forall>j<i. \<exists>b. rs ! j = Inr b"
      by blast
    have "\<forall>j<Suc i. \<exists>c. (Inr b # rs) ! j = Inr c"
    proof (intro allI impI)
      fix j assume "j < Suc i"
      then show "\<exists>c. (Inr b # rs) ! j = Inr c"
        using i(3) by (cases j) simp_all
    qed
    with i(1,2) show "\<exists>i<length (Inr b # rs). (Inr b # rs) ! i = Inl e \<and> (\<forall>j<i. \<exists>c. (Inr b # rs) ! j = Inr c)"
      by (intro exI [of _ "Suc i"]) simp
  next
    assume "\<exists>i<length (Inr b # rs). (Inr b # rs) ! i = Inl e \<and> (\<forall>j<i. \<exists>c. (Inr b # rs) ! j = Inr c)"
    then obtain i where i: "i < length (Inr b # rs)" "(Inr b # rs) ! i = Inl e"
      "\<forall>j<i. \<exists>c. (Inr b # rs) ! j = Inr c" by blast
    from i(2) obtain k where k: "i = Suc k" by (cases i) simp_all
    with i have "k < length rs" "rs ! k = Inl e" by simp_all
    moreover have "\<forall>j<k. \<exists>c. rs ! j = Inr c"
    proof (intro allI impI)
      fix j assume "j < k"
      then have "Suc j < i" using k by simp
      with i(3) obtain c where "(Inr b # rs) ! Suc j = Inr c" by blast
      then show "\<exists>c. rs ! j = Inr c" by simp
    qed
    ultimately have "first_failure rs = Inl e" using 3 by blast
    then show "first_failure (Inr b # rs) = Inl e" by simp
  qed
qed

lemma construct_message_fields:
  "construct_message w m args kwargs =
     (case construct_elements (elements_of m) args kwargs 0 [] of
        Inl err \<Rightarrow> (Inl err, w\<lparr>REQUEST_ID := correlation_id w\<rparr>)
      | Inr bs \<Rightarrow>
          (Inr (HEADER @ key m
                 @ encode_ber (length (int_to_bytes (correlation_id w) 4 @ concat bs))
                 @ int_to_bytes (correlation_id w) 4 @ concat bs),
           w\<lparr>REQUEST_ID := correlation_id w\<rparr>))"
  by (simp add: construct_message_def elements_of_def get_new_request_id_bytes_def
        get_new_request_id_def correlation_id_def Let_def
      split: option.splits list.splits sum.splits)

lemma field_result_Inr:
  "field_result es args kwargs i = Inr b \<longleftrightarrow>
     (\<exists>v. resolved es args kwargs i = Some v \<and> func (es ! i) v = Inr b)"
  by (auto simp: field_result_def split: option.splits sum.splits)

lemma field_result_IndexError:
  "field_result es args kwargs i = Inl IndexError \<longleftrightarrow> resolved es args kwargs i = None"
  by (auto simp: field_result_def split: option.splits sum.splits)

lemma field_result_FuncError:
  "field_result es args kwargs i = Inl (FuncError msg) \<longleftrightarrow>
     (\<exists>v. resolved es args kwargs i = Some v \<and> func (es ! i) v = Inl msg)"
  by (auto simp: field_result_def split: option.splits sum.splits)

lemma resolved_None:
  "resolved es args kwargs i = None \<longleftrightarrow>
     kwargs (name (es ! i)) = None \<and> length args \<le> unnamed_before es kwargs i"
  by (auto simp: resolved_def split: option.splits)

lemma map_upt_eq_map_iff:
  "map f [0..<n] = map g bs \<longleftrightarrow> length bs = n \<and> (\<forall>i<n. f i = g (bs ! i))"
  by (auto simp: list_eq_iff_nth_eq)

lemma construct_elements_Inr:
  "construct_elements es args kwargs 0 [] = Inr bs \<longleftrightarrow>
     length bs = length es \<and>
     (\<forall>i<length es. \<exists>v. resolved es args kwargs i = Some v \<and> func (es ! i) v = Inr (bs ! i))"
proof -
  have "construct_elements es args kwargs 0 [] = Inr bs \<longleftrightarrow>
          map (field_result es args kwargs) [0..<length es] = map Inr bs"
    by (simp only: construct_elements_field_results first_failure_Inr)
  also have "\<dots> \<longleftrightarrow>
      length bs = length es \<and> (\<forall>i<length es. field_result es args kwargs i = Inr (bs ! i))"
    by (rule map_upt_eq_map_iff)
  finally show ?thesis by (simp only: field_result_Inr)
qed

lemma construct_elements_Inl:
  "construct_elements es args kwargs 0 [] = Inl e \<longleftrightarrow>
     (\<exists>i<length es. field_result es args kwargs i = Inl e \<and>
        (\<forall>j<i. \<exists>b v. resolved es args kwargs j = Some v \<and> func (es ! j) v = Inr b))"
proof -
  have "construct_elements es args kwargs 0 [] = Inl e \<longleftrightarrow>
     (\<exists>i<length es. field_result es args kwargs i = Inl e \<and>
        (\<forall>j<i. \<exists>b. field_result es args kwargs j = Inr b))"
    by (simp add: construct_elements_field_results first_failure_Inl cong: conj_cong)
  then show ?thesis by (simp only: field_result_Inr)
qed

lemma int_to_bytes_4:
  "int_to_bytes v 4 =
     [word_of_int (v div 16777216), word_of_int (v div 65536), word_of_int (v div 256),
      word_of_int v]"
proof -
  have n: "(4::nat) = Suc (Suc (Suc (Suc 0)))" by simp
  have d: "v div 256 div 256 = v div 65536" "v div 65536 div 256 = v div 16777216"
    by (simp_all add: zdiv_zmult2_eq [symmetric])
  show ?thesis
    unfolding n by (simp only: int_to_bytes.simps d append.simps)
qed

lemma HEADER_bytes:
  "HEADER = [0x06, 0x0E, 0x2B, 0x34, 0x02, 0x05, 0x01, 0x0A, 0x0E, 0x10, 0x01, 0x01, 0x01]"
  by (simp add: HEADER_def hex_value_def)

lemma construct_message_Inr:
  "fst (construct_message w m args kwargs) = Inr frame \<longleftrightarrow>
     (\<exists>bs. construct_elements (elements_of m) args kwargs 0 [] = Inr bs
        \<and> frame = HEADER @ key m
               @ encode_ber (length (int_to_bytes (correlation_id w) 4 @ concat bs))
               @ int_to_bytes (correlation_id w) 4 @ concat bs)"
proof (cases "construct_elements (elements_of m) args kwargs 0 []")
  case (Inl e)
  then show ?thesis by (simp add: construct_message_fields)
next
  case (Inr cs)
  then show ?thesis by (simp add: construct_message_fields eq_commute [of frame])
qed

lemma construct_message_Inl:
  "fst (construct_message w m args kwargs) = Inl e \<longleftrightarrow>
     construct_elements (elements_of m) args kwargs 0 [] = Inl e"
  by (cases "construct_elements (elements_of m) args kwargs 0 []")
     (simp_all add: construct_message_fields)

lemma correlation_id_bytes:
  "int_to_bytes (correlation_id w) 4 =
     [0, 0, word_of_int (correlation_id w div 256), word_of_int (correlation_id w)]"
proof -
  have "0 \<le> correlation_id w" "correlation_id w < 60000"
    by (simp_all add: correlation_id_def)
  then have "correlation_id w div 16777216 = 0" "correlation_id w div 65536 = 0"
    by (simp_all add: div_pos_pos_trivial)
  then show ?thesis
    by (simp only: int_to_bytes_4 word_of_int_0)
qed

lemma filter_take_less:
  "i < length es \<Longrightarrow> P (es ! i) \<Longrightarrow> length (filter P (take i es)) < length (filter P es)"
proof -
  assume i: "i < length es" and p: "P (es ! i)"
  have "es = take i es @ es ! i # drop (Suc i) es"
    using i by (rule id_take_nth_drop)
  then have "filter P es = filter P (take i es) @ filter P (es ! i # drop (Suc i) es)"
    by (metis filter_append)
  with p show ?thesis by simp
qed

lemma filter_take_index:
  "k < length (filter P es) \<Longrightarrow> \<exists>i<length es. P (es ! i) \<and> length (filter P (take i es)) = k"
proof (induction es arbitrary: k)
  case Nil
  then show ?case by simp
next
  case (Cons e es)
  show ?case
  proof (cases "P e")
    case True
    show ?thesis
    proof (cases k)
      case 0
      with True show ?thesis by (intro exI [of _ 0]) simp
    next
      case (Suc k')
      with Cons.prems True have "k' < length (filter P es)" by simp
      from Cons.IH [OF this] obtain i where "i < length es" "P (es ! i)"
        "length (filter P (take i es)) = k'" by blast
      with True Suc show ?thesis by (intro exI [of _ "Suc i"]) simp
    qed
  next
    case False
    with Cons.prems have "k < length (filter P es)" by simp
    from Cons.IH [OF this] obtain i where "i < length es" "P (es ! i)"
      "length (filter P (take i es)) = k" by blast
    with False show ?thesis by (intro exI [of _ "Suc i"]) simp
  qed
qed

lemma unnamed_before_less:
  "i < length es \<Longrightarrow> kwargs (name (es ! i)) = None \<Longrightarrow>
   unnamed_before es kwargs i < length (filter (\<lambda>e. kwargs (name e) = None) es)"
  unfolding unnamed_before_def by (rule filter_take_less)

lemma unnamed_before_mono:
  assumes "j < i" "i \<le> length es" "kwargs (name (es ! j)) = None"
  shows "unnamed_before es kwargs j < unnamed_before es kwargs i"
proof -
  have "j < length (take i es)" using assms by simp
  moreover have "kwargs (name (take i es ! j)) = None" using assms by simp
  ultimately have
    "length (filter (\<lambda>e. kwargs (name e) = None) (take j (take i es)))
       < length (filter (\<lambda>e. kwargs (name e) = None) (take i es))"
    by (rule filter_take_less)
  moreover have "take j (take i es) = take j es" using assms by (simp add: min_def)
  ultimately show ?thesis by (simp add: unnamed_before_def)
qed

lemma construct_message_IndexError:
  "fst (construct_message w m args kwargs) = Inl IndexError \<longleftrightarrow>
     (\<exists>i<length (elements_of m).
        (kwargs (name (elements_of m ! i)) = None
         \<and> length args \<le> unnamed_before (elements_of m) kwargs i)
        \<and> (\<forall>j<i. \<exists>b v. resolved (elements_of m) args kwargs j = Some v
                        \<and> func (elements_of m ! j) v = Inr b))"
  by (simp only: construct_message_Inl construct_elements_Inl field_result_IndexError
        resolved_None)

lemma construct_message_FuncError:
  "fst (construct_message w m args kwargs) = Inl (FuncError msg) \<longleftrightarrow>
     (\<exists>i<length (elements_of m).
        (\<exists>v. resolved (elements_of m) args kwargs i = Some v \<and> func (elements_of m ! i) v = Inl msg)
        \<and> (\<forall>j<i. \<exists>b v. resolved (elements_of m) args kwargs j = Some v
                        \<and> func (elements_of m ! j) v = Inr b))"
  by (simp only: construct_message_Inl construct_elements_Inl field_result_FuncError)

lemma IndexError_static:
  assumes total: "\<forall>e\<in>set (elements_of m). \<forall>v. \<exists>b. func e v = Inr b"
  shows "fst (construct_message w m args kwargs) = Inl IndexError \<longleftrightarrow>
         length args < length (filter (\<lambda>e. kwargs (name e) = None) (elements_of m))"
proof
  assume "fst (construct_message w m args kwargs) = Inl IndexError"
  then obtain i where i: "i < length (elements_of m)" "kwargs (name (elements_of m ! i)) = None"
    "length args \<le> unnamed_before (elements_of m) kwargs i"
    unfolding construct_message_IndexError by blast
  from unnamed_before_less [of i "elements_of m" kwargs, OF i(1) i(2)] i(3)
  show "length args < length (filter (\<lambda>e. kwargs (name e) = None) (elements_of m))" by simp
next
  assume "length args < length (filter (\<lambda>e. kwargs (name e) = None) (elements_of m))"
  from filter_take_index [OF this] obtain i where i: "i < length (elements_of m)"
    "kwargs (name (elements_of m ! i)) = None" "unnamed_before (elements_of m) kwargs i = length args"
    unfolding unnamed_before_def by blast
  have "\<exists>b v. resolved (elements_of m) args kwargs j = Some v \<and> func (elements_of m ! j) v = Inr b"
    if j: "j < i" for j
  proof -
    have "\<exists>v. resolved (elements_of m) args kwargs j = Some v"
    proof (cases "kwargs (name (elements_of m ! j))")
      case None
      from unnamed_before_mono [of j i "elements_of m" kwargs, OF j _ None] i(1,3)
      have "unnamed_before (elements_of m) kwargs j < length args" by simp
      with None show ?thesis by (simp add: resolved_def)
    next
      case (Some v)
      then show ?thesis by (simp add: resolved_def)
    qed
    then obtain v where v: "resolved (elements_of m) args kwargs j = Some v" ..
    have "elements_of m ! j \<in> set (elements_of m)" using j i(1) by simp
    with total obtain b where "func (elements_of m ! j) v = Inr b" by blast
    with v show ?thesis by blast
  qed
  with i show "fst (construct_message w m args kwargs) = Inl IndexError"
    unfolding construct_message_IndexError by (intro exI [of _ i]) simp
qed

lemma construct_elements_surplus_kwargs:
  "\<forall>e\<in>set es. name e \<notin> dom surplus \<Longrightarrow>
   construct_elements es args (kwargs ++ surplus) it acc =
   construct_elements es args kwargs it acc"
proof (induction es arbitrary: it acc)
  case Nil
  show ?case by simp
next
  case (Cons e es)
  then have "(kwargs ++ surplus) (name e) = kwargs (name e)"
    by (simp add: map_add_dom_app_simps)
  with Cons show ?case
    by (simp split: option.splits sum.splits)
qed

lemma construct_elements_surplus_args:
  "construct_elements es args kwargs it acc \<noteq> Inl IndexError \<Longrightarrow>
   construct_elements es (args @ extra) kwargs it acc =
   construct_elements es args kwargs it acc"
proof (induction es arbitrary: it acc)
  case Nil
  show ?case by simp
next
  case (Cons e es)
  show ?case
  proof (cases "kwargs (name e)")
    case (Some arg)
    with Cons show ?thesis by (simp split: sum.splits)
  next
    case None
    with Cons.prems have "it < length args" by (simp split: if_splits)
    with None Cons show ?thesis by (simp add: nth_append split: sum.splits)
  qed
qed

lemma construct_message_surplus_kwargs:
  assumes "\<forall>e\<in>set (elements_of m). name e \<notin> dom surplus"
  shows "construct_message w m args (kwargs ++ surplus) = construct_message w m args kwargs"
  by (simp add: construct_message_fields construct_elements_surplus_kwargs [OF assms])

lemma construct_message_surplus_args:
  assumes "fst (construct_message w m args kwargs) \<noteq> Inl IndexError"
  shows "construct_message w m (args @ extra) kwargs = construct_message w m args kwargs"
proof -
  from assms have "construct_elements (elements_of m) args kwargs 0 [] \<noteq> Inl IndexError"
    by (simp add: construct_message_Inl)
  then show ?thesis
    by (simp add: construct_message_fields construct_elements_surplus_args)
qed

lemma enough_args_no_IndexError:
  assumes "length (filter (\<lambda>e. kwargs (name e) = None) (elements_of m)) \<le> length args"
  shows "fst (construct_message w m args kwargs) \<noteq> Inl IndexError"
proof
  assume "fst (construct_message w m args kwargs) = Inl IndexError"
  then obtain i where i: "i < length (elements_of m)" "kwargs (name (elements_of m ! i)) = None"
    "length args \<le> unnamed_before (elements_of m) kwargs i"
    unfolding construct_message_IndexError by blast
  from unnamed_before_less [of i "elements_of m" kwargs, OF i(1) i(2)] i(3) assms
  show False by simp
qed

lemma construct_message_same_values:
  assumes "\<forall>i<length (elements_of m).
     resolved (elements_of m) args1 kwargs1 i = resolved (elements_of m) args2 kwargs2 i"
  shows "construct_message w m args1 kwargs1 = construct_message w m args2 kwargs2"
proof -
  have "map (field_result (elements_of m) args1 kwargs1) [0..<length (elements_of m)] =
        map (field_result (elements_of m) args2 kwargs2) [0..<length (elements_of m)]"
    using assms by (intro map_cong) (simp_all add: field_result_def)
  then show ?thesis
    by (simp only: construct_message_fields construct_elements_field_results)
qed

text \<open>The example request, evaluated.\<close>

lemma example_elements:
  "elements_of example_request =
     [\<lparr>name = ''a'', start = Some 0, end' = Some 4, func = encode_uint 4, text_translate = None\<rparr>,
      \<lparr>name = ''b'', start = Some 4, end' = Some 5, func = encode_uint 1, text_translate = None\<rparr>]"
  by (simp add: elements_of_def example_request_def)

lemma encode_uint_4: "encode_uint 4 42 = Inr [0, 0, 0, 42]"
  by (simp add: encode_uint_def int_to_bytes_4)

lemma encode_uint_1:
  "encode_uint (Suc 0) 7 = Inr [7]" "encode_uint (Suc 0) 700 = Inl ''value out of range''"
  by (simp_all add: encode_uint_def)

lemma example_key: "key example_request = [0xAA, 0xBB, 0xCC]"
  by (simp add: example_request_def)

lemma example_construct:
  "construct_message example_world example_request [42] [''b'' \<mapsto> 7] =
     (Inr [0x06, 0x0E, 0x2B, 0x34, 0x02, 0x05, 0x01, 0x0A, 0x0E, 0x10, 0x01, 0x01, 0x01,
           0xAA, 0xBB, 0xCC, 9, 0, 0, 0, 1, 0, 0, 0, 42, 7],
      example_world\<lparr>REQUEST_ID := 1\<rparr>)"
  by (simp add: construct_message_fields example_elements encode_uint_4 encode_uint_1
        correlation_id_def example_world_def int_to_bytes_4 encode_ber_def HEADER_bytes
        example_key)

lemma example_construct_IndexError:
  "construct_message example_world example_request [] [''b'' \<mapsto> 7] =
     (Inl IndexError, example_world\<lparr>REQUEST_ID := 1\<rparr>)"
  by (simp add: construct_message_fields example_elements correlation_id_def example_world_def)

lemma example_construct_FuncError:
  "construct_message example_world example_request [42] [''b'' \<mapsto> 700] =
     (Inl (FuncError ''value out of range''), example_world\<lparr>REQUEST_ID := 1\<rparr>)"
  by (simp add: construct_message_fields example_elements encode_uint_4 encode_uint_1
        correlation_id_def example_world_def)

subsection \<open>The frame built by \<open>construct_message\<close>\<close>

text \<open>
  C1. \<open>construct_message\<close> returns a frame exactly when every field resolves to a value
  and its \<open>func\<close> encodes that value, and the frame is then
  \<open>HEADER\<close>, the key of the schema, the BER length of the payload, and the payload: the
  4 bytes of the new correlation id, big-endian, followed by the field encodings in
  schema order with nothing between them. \<open>HEADER\<close> is the 13 bytes
  06 0E 2B 34 02 05 01 0A 0E 10 01 01 01.
\<close>

theorem construct_message_frame:
  "(fst (construct_message w m args kwargs) = Inr frame \<longleftrightarrow>
      (\<exists>bs. (length bs = length (elements_of m)
         \<and> (\<forall>i<length (elements_of m).
               \<exists>v. resolved (elements_of m) args kwargs i = Some v
                  \<and> func (elements_of m ! i) v = Inr (bs ! i)))
         \<and> frame = HEADER @ key m
               @ encode_ber (length (int_to_bytes (correlation_id w) 4 @ concat bs))
               @ int_to_bytes (correlation_id w) 4 @ concat bs))
   \<and> HEADER = [0x06, 0x0E, 0x2B, 0x34, 0x02, 0x05, 0x01, 0x0A, 0x0E, 0x10, 0x01, 0x01, 0x01]
   \<and> int_to_bytes (correlation_id w) 4 =
       [0, 0, word_of_int (correlation_id w div 256), word_of_int (correlation_id w)]
   \<and> correlation_id w = fst (get_new_request_id w)"
proof (intro conjI)
  show "fst (construct_message w m args kwargs) = Inr frame \<longleftrightarrow>
      (\<exists>bs. (length bs = length (elements_of m)
         \<and> (\<forall>i<length (elements_of m).
               \<exists>v. resolved (elements_of m) args kwargs i = Some v
                  \<and> func (elements_of m ! i) v = Inr (bs ! i)))
         \<and> frame = HEADER @ key m
               @ encode_ber (length (int_to_bytes (correlation_id w) 4 @ concat bs))
               @ int_to_bytes (correlation_id w) 4 @ concat bs)"
    by (simp only: construct_message_Inr construct_elements_Inr)
  show "HEADER = [0x06, 0x0E, 0x2B, 0x34, 0x02, 0x05, 0x01, 0x0A, 0x0E, 0x10, 0x01, 0x01, 0x01]"
    by (rule HEADER_bytes)
  show "int_to_bytes (correlation_id w) 4 =
       [0, 0, word_of_int (correlation_id w div 256), word_of_int (correlation_id w)]"
    by (rule correlation_id_bytes)
  show "correlation_id w = fst (get_new_request_id w)"
    by (simp add: correlation_id_def get_new_request_id_def Let_def)
qed

theorem construct_message_frame_witness:
  "fst (construct_message example_world example_request [42] [''b'' \<mapsto> 7]) =
     Inr ([0x06, 0x0E, 0x2B, 0x34, 0x02, 0x05, 0x01, 0x0A, 0x0E, 0x10, 0x01, 0x01, 0x01]
          @ [0xAA, 0xBB, 0xCC] @ [9] @ [0, 0, 0, 1] @ [0, 0, 0, 42] @ [7])"
proof -
  have r0: "resolved (elements_of example_request) [42] [''b'' \<mapsto> 7] 0 = Some 42"
    and r1: "resolved (elements_of example_request) [42] [''b'' \<mapsto> 7] 1 = Some 7"
    by (simp_all add: resolved_def unnamed_before_def example_elements)
  have "\<exists>bs. (length bs = length (elements_of example_request)
         \<and> (\<forall>i<length (elements_of example_request).
               \<exists>v. resolved (elements_of example_request) [42] [''b'' \<mapsto> 7] i = Some v
                  \<and> func (elements_of example_request ! i) v = Inr (bs ! i)))
         \<and> [0x06, 0x0E, 0x2B, 0x34, 0x02, 0x05, 0x01, 0x0A, 0x0E, 0x10, 0x01, 0x01, 0x01]
          @ [0xAA, 0xBB, 0xCC] @ [9] @ [0, 0, 0, 1] @ [0, 0, 0, 42] @ [7]
           = HEADER @ key example_request
               @ encode_ber (length (int_to_bytes (correlation_id example_world) 4 @ concat bs))
               @ int_to_bytes (correlation_id example_world) 4 @ concat bs"
    using r0 r1
    by (intro exI [of _ "[[0, 0, 0, 42], [7]]"])
       (simp add: example_elements less_Suc_eq encode_uint_4 encode_uint_1 HEADER_bytes
          correlation_id_def example_world_def int_to_bytes_4 encode_ber_def example_key)
  then show ?thesis
    using construct_message_frame [of example_world example_request "[42]" "[''b'' \<mapsto> 7]"]
    by blast
qed

subsection \<open>How arguments are bound\<close>

text \<open>
  C3. Field \<open>i\<close>, in schema order, receives \<open>resolved \<dots> i\<close>: the named argument of
  its name when there is one, and otherwise the positional argument whose index is the
  number of earlier fields without a named argument. A frame is returned only when
  every field received a value. The call fails with IndexError (MissingArgument)
  exactly when the loop reaches a field without a named argument after the positional
  arguments have all been used, every earlier field having been encoded; a failure of
  \<open>func\<close> at an earlier field comes first. Where no \<open>func\<close> can fail, this is exactly
  when there are fewer positional arguments than fields without a named argument.
\<close>

theorem construct_message_arguments:
  "(fst (construct_message w m args kwargs) = Inr frame \<longrightarrow>
      (\<exists>bs. length bs = length (elements_of m)
         \<and> (\<forall>i<length (elements_of m).
               \<exists>v. resolved (elements_of m) args kwargs i = Some v
                  \<and> func (elements_of m ! i) v = Inr (bs ! i))))
   \<and> (\<forall>i. resolved (elements_of m) args kwargs i =
         (case kwargs (name (elements_of m ! i)) of
            Some v \<Rightarrow> Some v
          | None \<Rightarrow>
              if length (filter (\<lambda>e. kwargs (name e) = None) (take i (elements_of m))) < length args
              then Some (args ! length (filter (\<lambda>e. kwargs (name e) = None) (take i (elements_of m))))
              else None))
   \<and> (fst (construct_message w m args kwargs) = Inl IndexError \<longleftrightarrow>
        (\<exists>i<length (elements_of m).
           (kwargs (name (elements_of m ! i)) = None
            \<and> length args \<le> unnamed_before (elements_of m) kwargs i)
           \<and> (\<forall>j<i. \<exists>b v. resolved (elements_of m) args kwargs j = Some v
                           \<and> func (elements_of m ! j) v = Inr b)))
   \<and> (fst (construct_message w m args kwargs) = Inl (FuncError msg) \<longleftrightarrow>
        (\<exists>i<length (elements_of m).
           (\<exists>v. resolved (elements_of m) args kwargs i = Some v \<and> func (elements_of m ! i) v = Inl msg)
           \<and> (\<forall>j<i. \<exists>b v. resolved (elements_of m) args kwargs j = Some v
                           \<and> func (elements_of m ! j) v = Inr b)))
   \<and> ((\<forall>e\<in>set (elements_of m). \<forall>v. \<exists>b. func e v = Inr b) \<longrightarrow>
        (fst (construct_message w m args kwargs) = Inl IndexError \<longleftrightarrow>
         length args < length (filter (\<lambda>e. kwargs (name e) = None) (elements_of m))))"
proof (intro conjI)
  show "fst (construct_message w m args kwargs) = Inr frame \<longrightarrow>
      (\<exists>bs. length bs = length (elements_of m)
         \<and> (\<forall>i<length (elements_of m).
               \<exists>v. resolved (elements_of m) args kwargs i = Some v
                  \<and> func (elements_of m ! i) v = Inr (bs ! i)))"
    unfolding construct_message_Inr construct_elements_Inr by blast
  show "\<forall>i. resolved (elements_of m) args kwargs i =
         (case kwargs (name (elements_of m ! i)) of
            Some v \<Rightarrow> Some v
          | None \<Rightarrow>
              if length (filter (\<lambda>e. kwargs (name e) = None) (take i (elements_of m))) < length args
              then Some (args ! length (filter (\<lambda>e. kwargs (name e) = None) (take i (elements_of m))))
              else None)"
    by (simp add: resolved_def unnamed_before_def split: option.splits)
  show "fst (construct_message w m args kwargs) = Inl IndexError \<longleftrightarrow>
        (\<exists>i<length (elements_of m).
           (kwargs (name (elements_of m ! i)) = None
            \<and> length args \<le> unnamed_before (elements_of m) kwargs i)
           \<and> (\<forall>j<i. \<exists>b v. resolved (elements_of m) args kwargs j = Some v
                           \<and> func (elements_of m ! j) v = Inr b))"
    by (rule construct_message_IndexError)
  show "fst (construct_message w m args kwargs) = Inl (FuncError msg) \<longleftrightarrow>
        (\<exists>i<length (elements_of m).
           (\<exists>v. resolved (elements_of m) args kwargs i = Some v \<and> func (elements_of m ! i) v = Inl msg)
           \<and> (\<forall>j<i. \<exists>b v. resolved (elements_of m) args kwargs j = Some v
                           \<and> func (elements_of m ! j) v = Inr b))"
    by (rule construct_message_FuncError)
  show "(\<forall>e\<in>set (elements_of m). \<forall>v. \<exists>b. func e v = Inr b) \<longrightarrow>
        (fst (construct_message w m args kwargs) = Inl IndexError \<longleftrightarrow>
         length args < length (filter (\<lambda>e. kwargs (name e) = None) (elements_of m)))"
    using IndexError_static by blast
qed

theorem construct_message_arguments_witness:
  "fst (construct_message example_world example_request [] [''b'' \<mapsto> 7]) = Inl IndexError
   \<and> length ([] :: int list)
       < length (filter (\<lambda>e. [''b'' \<mapsto> (7::int)] (name e) = None) (elements_of example_request))
   \<and> resolved (elements_of example_request) [42] [''b'' \<mapsto> 7] 0 = Some 42
   \<and> resolved (elements_of example_request) [42] [''b'' \<mapsto> 7] 1 = Some 7"
proof -
  have i: "0 < length (elements_of example_request)"
    and n: "[''b'' \<mapsto> (7::int)] (name (elements_of example_request ! 0)) = None"
    and u: "length ([] :: int list) \<le> unnamed_before (elements_of example_request) [''b'' \<mapsto> 7] 0"
    by (simp_all add: example_elements unnamed_before_def)
  have "\<exists>i<length (elements_of example_request).
           ([''b'' \<mapsto> (7::int)] (name (elements_of example_request ! i)) = None
            \<and> length ([] :: int list) \<le> unnamed_before (elements_of example_request) [''b'' \<mapsto> 7] i)
           \<and> (\<forall>j<i. \<exists>b v. resolved (elements_of example_request) [] [''b'' \<mapsto> 7] j = Some v
                           \<and> func (elements_of example_request ! j) v = Inr b)"
    using i n u by (intro exI [of _ 0]) simp
  then have "fst (construct_message example_world example_request [] [''b'' \<mapsto> 7]) = Inl IndexError"
    using construct_message_arguments
      [of example_world example_request "[]" "[''b'' \<mapsto> 7]"]
    by blast
  moreover have "length ([] :: int list)
       < length (filter (\<lambda>e. [''b'' \<mapsto> (7::int)] (name e) = None) (elements_of example_request))"
    by (simp add: example_elements)
  moreover have "resolved (elements_of example_request) [42] [''b'' \<mapsto> 7] 0 = Some 42"
    "resolved (elements_of example_request) [42] [''b'' \<mapsto> 7] 1 = Some 7"
    using construct_message_arguments
      [of example_world example_request "[42]" "[''b'' \<mapsto> 7]"]
    by (simp_all add: example_elements)
  ultimately show ?thesis by blast
qed

subsection \<open>A failed construction keeps the new request id\<close>

text \<open>
  C9. When \<open>construct_message\<close> fails, for want of a positional argument or because
  a \<open>func\<close> raised, the state it leaves is the one \<open>get_new_request_id\<close> left: the
  counter is the old one plus one modulo 60000 and is not set back.
\<close>

theorem construct_message_failure_keeps_new_id:
  "fst (construct_message w m args kwargs) = Inl e \<longrightarrow>
     snd (construct_message w m args kwargs) = snd (get_new_request_id w)
     \<and> REQUEST_ID (snd (construct_message w m args kwargs)) = (REQUEST_ID w + 1) mod 60000
     \<and> snd (construct_message w m args kwargs) = w\<lparr>REQUEST_ID := (REQUEST_ID w + 1) mod 60000\<rparr>"
  by (cases "construct_elements (elements_of m) args kwargs 0 []")
     (simp_all add: construct_message_fields get_new_request_id_def correlation_id_def Let_def)

theorem construct_message_failure_keeps_new_id_witness:
  "fst (construct_message example_world example_request [] [''b'' \<mapsto> 7]) = Inl IndexError
   \<and> REQUEST_ID example_world = 0
   \<and> REQUEST_ID (snd (construct_message example_world example_request [] [''b'' \<mapsto> 7])) = 1
   \<and> fst (construct_message example_world example_request [42] [''b'' \<mapsto> 700])
       = Inl (FuncError ''value out of range'')
   \<and> REQUEST_ID (snd (construct_message example_world example_request [42] [''b'' \<mapsto> 700])) = 1"
  using construct_message_failure_keeps_new_id
    [of example_world example_request "[]" "[''b'' \<mapsto> 7]" IndexError]
    construct_message_failure_keeps_new_id
    [of example_world example_request "[42]" "[''b'' \<mapsto> 700]" "FuncError ''value out of range''"]
  by (simp add: example_construct_IndexError example_construct_FuncError)
     (simp add: example_world_def)

subsection \<open>Surplus arguments\<close>

lemma construct_message_call_body:
  "keywords ''message'' = None \<Longrightarrow>
   construct_message_call w m args keywords = construct_message w m args keywords"
  by (simp add: construct_message_call_def)

lemma construct_message_call_TypeError:
  "keywords ''message'' \<noteq> None \<Longrightarrow>
   construct_message_call w m args keywords = (Inl TypeError, w)"
  by (auto simp: construct_message_call_def)

lemma construct_message_call_surplus:
  assumes names: "\<forall>e\<in>set (elements_of m). name e \<notin> dom surplus"
    and nomsg: "surplus ''message'' = None"
    and ok: "fst (construct_message_call w m args kwargs) \<noteq> Inl IndexError"
  shows "construct_message_call w m (args @ extra) (kwargs ++ surplus) =
         construct_message_call w m args kwargs"
proof (cases "kwargs ''message''")
  case None
  with nomsg have both: "(kwargs ++ surplus) ''message'' = None" by simp
  from ok None have ok': "fst (construct_message w m args kwargs) \<noteq> Inl IndexError"
    by (simp add: construct_message_call_body)
  have "construct_message w m (args @ extra) (kwargs ++ surplus) =
        construct_message w m (args @ extra) kwargs"
    using names by (rule construct_message_surplus_kwargs)
  also have "\<dots> = construct_message w m args kwargs"
    using ok' by (rule construct_message_surplus_args)
  finally show ?thesis
    by (simp add: construct_message_call_body None both)
next
  case (Some x)
  with nomsg have "(kwargs ++ surplus) ''message'' \<noteq> None"
    by (simp add: map_add_def)
  with Some show ?thesis
    by (simp add: construct_message_call_TypeError)
qed

text \<open>
  C10, as amended. A call of \<open>construct_message\<close> does not fail on surplus arguments,
  with one exception: a named argument called \<open>message\<close>, the name of the function's
  first parameter, makes the call raise TypeError before the body runs, whatever the
  schema. Named arguments other than \<open>message\<close> whose names are no field's, and
  positional arguments after the ones the fields without a named argument use, change
  nothing: the call with them returns what the call without them returns, unless that
  one already failed for want of a positional argument. As many positional arguments
  as there are fields without a named argument are enough never to fail that way. Two
  calls without a named argument \<open>message\<close> that bind the same value to every field
  return the same result.
\<close>

theorem construct_message_call_surplus_ignored:
  "((\<forall>e\<in>set (elements_of m). name e \<notin> dom surplus) \<and> surplus ''message'' = None
      \<and> fst (construct_message_call w m args kwargs) \<noteq> Inl IndexError \<longrightarrow>
    construct_message_call w m (args @ extra) (kwargs ++ surplus) =
    construct_message_call w m args kwargs)
   \<and> (length (filter (\<lambda>e. kwargs (name e) = None) (elements_of m)) \<le> length args \<longrightarrow>
        fst (construct_message_call w m args kwargs) \<noteq> Inl IndexError)
   \<and> (kwargs ''message'' = None \<and> kwargs2 ''message'' = None
        \<and> (\<forall>i<length (elements_of m).
              resolved (elements_of m) args kwargs i = resolved (elements_of m) args2 kwargs2 i)
       \<longrightarrow> construct_message_call w m args kwargs = construct_message_call w m args2 kwargs2)
   \<and> (kwargs ''message'' \<noteq> None \<longrightarrow>
        construct_message_call w m args kwargs = (Inl TypeError, w))"
proof (intro conjI impI)
  assume "(\<forall>e\<in>set (elements_of m). name e \<notin> dom surplus) \<and> surplus ''message'' = None
      \<and> fst (construct_message_call w m args kwargs) \<noteq> Inl IndexError"
  then show "construct_message_call w m (args @ extra) (kwargs ++ surplus) =
             construct_message_call w m args kwargs"
    by (intro construct_message_call_surplus) simp_all
next
  assume enough: "length (filter (\<lambda>e. kwargs (name e) = None) (elements_of m)) \<le> length args"
  show "fst (construct_message_call w m args kwargs) \<noteq> Inl IndexError"
  proof (cases "kwargs ''message''")
    case None
    with enough_args_no_IndexError [OF enough, of w] show ?thesis
      by (simp add: construct_message_call_body)
  next
    case (Some x)
    then show ?thesis by (simp add: construct_message_call_TypeError)
  qed
next
  assume a: "kwargs ''message'' = None \<and> kwargs2 ''message'' = None
        \<and> (\<forall>i<length (elements_of m).
              resolved (elements_of m) args kwargs i = resolved (elements_of m) args2 kwargs2 i)"
  then have "construct_message w m args kwargs = construct_message w m args2 kwargs2"
    by (intro construct_message_same_values) simp
  with a show "construct_message_call w m args kwargs = construct_message_call w m args2 kwargs2"
    by (simp add: construct_message_call_body)
next
  assume "kwargs ''message'' \<noteq> None"
  then show "construct_message_call w m args kwargs = (Inl TypeError, w)"
    by (rule construct_message_call_TypeError)
qed

text \<open>
  The claim C10 as stated fails for a surplus named argument called \<open>message\<close>: no
  field of the example request has that name, the call without it returns the frame,
  and the call with it raises TypeError.
\<close>

theorem construct_message_call_message_keyword_counterexample:
  "map name (elements_of example_request) = [''a'', ''b'']
   \<and> fst (construct_message_call example_world example_request [42] [''b'' \<mapsto> 7])
       = Inr [0x06, 0x0E, 0x2B, 0x34, 0x02, 0x05, 0x01, 0x0A, 0x0E, 0x10, 0x01, 0x01, 0x01,
              0xAA, 0xBB, 0xCC, 9, 0, 0, 0, 1, 0, 0, 0, 42, 7]
   \<and> construct_message_call example_world example_request [42]
         [''b'' \<mapsto> 7, ''message'' \<mapsto> 1]
       = (Inl TypeError, example_world)"
  by (simp add: construct_message_call_def example_construct example_elements)

theorem construct_message_call_surplus_ignored_witness:
  "construct_message_call example_world example_request ([42] @ [99])
       ([''b'' \<mapsto> 7] ++ [''zzz'' \<mapsto> 1])
     = construct_message_call example_world example_request [42] [''b'' \<mapsto> 7]
   \<and> fst (construct_message_call example_world example_request [42] [''b'' \<mapsto> 7])
       = Inr [0x06, 0x0E, 0x2B, 0x34, 0x02, 0x05, 0x01, 0x0A, 0x0E, 0x10, 0x01, 0x01, 0x01,
              0xAA, 0xBB, 0xCC, 9, 0, 0, 0, 1, 0, 0, 0, 42, 7]"
proof -
  have c: "construct_message_call example_world example_request [42] [''b'' \<mapsto> 7] =
      (Inr [0x06, 0x0E, 0x2B, 0x34, 0x02, 0x05, 0x01, 0x0A, 0x0E, 0x10, 0x01, 0x01, 0x01,
            0xAA, 0xBB, 0xCC, 9, 0, 0, 0, 1, 0, 0, 0, 42, 7],
       example_world\<lparr>REQUEST_ID := 1\<rparr>)"
    by (simp add: construct_message_call_def example_construct)
  have h1: "\<forall>e\<in>set (elements_of example_request). name e \<notin> dom [''zzz'' \<mapsto> (1::int)]"
    by (simp add: example_elements)
  have h2: "[''zzz'' \<mapsto> (1::int)] ''message'' = None"
    by simp
  have h3: "fst (construct_message_call example_world example_request [42] [''b'' \<mapsto> 7])
              \<noteq> Inl IndexError"
    by (simp add: c)
  from h1 h2 h3 have "construct_message_call example_world example_request ([42] @ [99])
       ([''b'' \<mapsto> 7] ++ [''zzz'' \<mapsto> 1])
     = construct_message_call example_world example_request [42] [''b'' \<mapsto> 7]"
    using construct_message_call_surplus_ignored
      [of example_request "[''zzz'' \<mapsto> 1]" example_world "[42]" "[''b'' \<mapsto> 7]" "[99]"]
    by blast
  with c show ?thesis by (simp only: fst_conv simp_thms)
qed

subsection \<open>The loop of \<open>parse_message\<close>\<close>

lemma od_assign_simps:
  "od_assign d [] = d"
  "od_assign d ((k, x) # kvs) = od_assign (od_set d k x) kvs"
  "od_assign d (xs @ ys) = od_assign (od_assign d xs) ys"
  by (simp_all add: od_assign_def)

lemma parse_elements_entries:
  "parse_elements es payload result =
     (case first_failure (map (decode_field payload) es) of
        Inl err \<Rightarrow> Inl err
      | Inr vs \<Rightarrow> Inr (od_assign result (all_entries es vs)))"
proof (induction es arbitrary: result)
  case Nil
  show ?case by (simp add: all_entries_def od_assign_simps)
next
  case (Cons e es)
  show ?case
  proof (cases "func e (py_slice payload (start e) (end' e))")
    case (Inl msg)
    then show ?thesis by (simp add: decode_field_def)
  next
    case (Inr v)
    then have d: "decode_field payload e = Inr v" by (simp add: decode_field_def)
    have step: "od_assign result (all_entries (e # es) (v # vs)) =
                od_assign (od_assign result (field_entries e v)) (all_entries es vs)" for vs
      by (simp add: all_entries_def od_assign_simps)
    show ?thesis
    proof (cases "text_translate e")
      case None
      with Inr d show ?thesis
        by (simp add: Cons.IH step field_entries_def text_entries_def od_assign_simps Let_def
            split: sum.splits)
    next
      case (Some table)
      show ?thesis
      proof (cases table)
        case Nil
        with Some Inr d show ?thesis
          by (simp add: Cons.IH step field_entries_def text_entries_def od_assign_simps Let_def
              split: sum.splits)
      next
        case (Cons t ts)
        with Some Inr d show ?thesis
          by (simp add: Cons.IH step field_entries_def text_entries_def od_assign_simps Let_def
              dict_get_def del: map_of.simps split: sum.splits)
      qed
    qed
  qed
qed

lemma parse_message_entries:
  "parse_message m payload =
     (case first_failure (map (decode_field payload) (elements_of m)) of
        Inl err \<Rightarrow> Inl err
      | Inr vs \<Rightarrow> Inr (od_assign [] (all_entries (elements_of m) vs)))"
proof (cases "elements m")
  case None
  then show ?thesis
    by (simp add: parse_message_def elements_of_def all_entries_def od_assign_simps)
next
  case (Some es)
  then have eo: "elements_of m = es" by (simp add: elements_of_def)
  show ?thesis
  proof (cases es)
    case Nil
    with Some show ?thesis
      unfolding eo Nil by (simp add: parse_message_def all_entries_def od_assign_simps)
  next
    case (Cons a list)
    with Some show ?thesis
      unfolding eo Cons
      by (simp add: parse_message_def parse_elements_entries del: parse_elements.simps)
  qed
qed

lemma od_set_fresh: "k \<notin> fst ` set d \<Longrightarrow> od_set d k x = d @ [(k, x)]"
  by (induction d) auto

lemma od_assign_fresh:
  "distinct (map fst kvs) \<Longrightarrow> fst ` set kvs \<inter> fst ` set d = {} \<Longrightarrow>
   od_assign d kvs = d @ kvs"
proof (induction kvs arbitrary: d)
  case Nil
  show ?case by (simp add: od_assign_simps)
next
  case (Cons kv kvs)
  obtain k x where kv: "kv = (k, x)" by (cases kv)
  from Cons.prems kv have fresh: "k \<notin> fst ` set d" by auto
  have "od_assign (d @ [(k, x)]) kvs = (d @ [(k, x)]) @ kvs"
  proof (rule Cons.IH)
    show "distinct (map fst kvs)" using Cons.prems by simp
    show "fst ` set kvs \<inter> fst ` set (d @ [(k, x)]) = {}"
      using Cons.prems kv by auto
  qed
  with fresh kv show ?case by (simp add: od_assign_simps od_set_fresh)
qed

lemma keys_field_entries: "map fst (field_entries e v) = entry_keys e"
  by (simp add: field_entries_def text_entries_def entry_keys_def split: option.splits list.splits)

lemma keys_all_entries:
  "length vs = length es \<Longrightarrow> map fst (all_entries es vs) = concat (map entry_keys es)"
proof (induction es arbitrary: vs)
  case Nil
  then show ?case by (simp add: all_entries_def)
next
  case (Cons e es)
  then obtain v vs' where "vs = v # vs'" by (cases vs) simp_all
  with Cons show ?case
    using Cons.IH [of vs'] by (simp add: all_entries_def keys_field_entries)
qed

lemma first_failure_length: "first_failure rs = Inr bs \<Longrightarrow> length bs = length rs"
  by (simp add: first_failure_Inr)

lemma py_slice_middle:
  "py_slice (pre @ b @ rest) (Some (int (length pre))) (Some (int (length pre) + int (length b))) = b"
  by (simp add: py_slice_def Let_def min_def)

lemma first_failure_map_Inr: "first_failure (map Inr vs) = Inr vs"
  by (simp add: first_failure_Inr)

lemma decode_consistent:
  assumes "codec_consistent off es ds"
    and "length bs = length es" and "length vs = length es"
    and "\<forall>i<length es. func (es ! i) (vs ! i) = Inr (bs ! i)"
    and "int (length pre) = off"
  shows "map (decode_field (pre @ concat bs)) ds = map Inr vs"
  using assms
proof (induction off es ds arbitrary: bs vs pre rule: codec_consistent.induct)
  case (1 off)
  then show ?case by simp
next
  case (2 off e es d ds)
  from "2.prems"(2) obtain b bs' where bs: "bs = b # bs'" by (cases bs) simp_all
  from "2.prems"(3) obtain v vs' where vs: "vs = v # vs'" by (cases vs) simp_all
  from "2.prems"(1) obtain hi where hi: "end' d = Some hi" and st: "start d = Some off"
    and enc: "\<forall>v b. func e v = Inr b \<longrightarrow> int (length b) = hi - off \<and> func d b = Inr v"
    and rest: "codec_consistent hi es ds"
    by (auto split: option.splits)
  from "2.prems"(4) bs vs have here: "func e v = Inr b"
    and there: "\<forall>i<length es. func (es ! i) (vs' ! i) = Inr (bs' ! i)"
    by auto
  from enc here have len: "int (length b) = hi - off" and dec: "func d b = Inr v" by auto
  have "py_slice (pre @ b @ concat bs') (start d) (end' d) = b"
    using py_slice_middle [of pre b "concat bs'"] st hi len "2.prems"(5) by simp
  with dec have d0: "decode_field (pre @ concat bs) d = Inr v"
    by (simp add: decode_field_def bs)
  have "map (decode_field ((pre @ b) @ concat bs')) ds = map Inr vs'"
  proof (rule "2.IH" [OF hi rest _ _ there])
    show "length bs' = length es" using "2.prems"(2) bs by simp
    show "length vs' = length es" using "2.prems"(3) vs by simp
    show "int (length (pre @ b)) = hi" using len "2.prems"(5) by simp
  qed
  with d0 show ?case by (simp add: bs vs)
next
  case (3 off d ds)
  then show ?case by simp
next
  case (4 off e es)
  then show ?case by simp
qed

lemma codec_consistent_length: "codec_consistent off es ds \<Longrightarrow> length ds = length es"
  by (induction off es ds rule: codec_consistent.induct) (auto split: option.splits)

lemma parse_message_distinct:
  assumes "distinct (concat (map entry_keys (elements_of m)))"
    and "map (decode_field payload) (elements_of m) = map Inr vs"
  shows "parse_message m payload = Inr (all_entries (elements_of m) vs)"
proof -
  from assms(2) have len: "length vs = length (elements_of m)"
    by (metis length_map)
  then have "distinct (map fst (all_entries (elements_of m) vs))"
    using assms(1) by (simp add: keys_all_entries)
  then have "od_assign [] (all_entries (elements_of m) vs) = [] @ all_entries (elements_of m) vs"
    by (rule od_assign_fresh) simp
  then show ?thesis
    by (simp add: parse_message_entries assms(2) first_failure_map_Inr)
qed

lemma text_key_differs: "name e @ ''_text'' \<noteq> name e"
  by simp

lemma map_upt_eq_map_iff2:
  "map f es = map g vs \<longleftrightarrow> length vs = length es \<and> (\<forall>i<length es. f (es ! i) = g (vs ! i))"
  by (auto simp: list_eq_iff_nth_eq)

lemma int_to_bytes_length: "length (int_to_bytes v n) = n"
  by (induction n arbitrary: v) simp_all

lemma bytes_to_int_snoc: "bytes_to_int (bs @ [b]) = bytes_to_int bs * 256 + uint b"
  by (simp add: bytes_to_int_def)

lemma bytes_to_int_int_to_bytes:
  "0 \<le> v \<Longrightarrow> v < 256 ^ n \<Longrightarrow> bytes_to_int (int_to_bytes v n) = v"
proof (induction n arbitrary: v)
  case 0
  then show ?case by (simp add: bytes_to_int_def)
next
  case (Suc n)
  have "0 \<le> v div 256" using Suc.prems by simp
  moreover have "v div 256 < 256 ^ n"
    using Suc.prems by (simp add: div_less_iff_less_mult)
  ultimately have "bytes_to_int (int_to_bytes (v div 256) n) = v div 256"
    by (rule Suc.IH)
  moreover have "uint (word_of_int v :: byte) = v mod 256"
    by (simp add: uint_word_of_int)
  ultimately show ?case
    by (simp add: bytes_to_int_snoc)
qed

lemma encode_uint_decode_uint:
  "encode_uint n v = Inr b \<Longrightarrow> int (length b) = int n \<and> decode_uint b = Inr v"
  by (auto simp: encode_uint_def decode_uint_def int_to_bytes_length bytes_to_int_int_to_bytes
      split: if_splits)

text \<open>The example responses, evaluated.\<close>

lemma example_response_elements:
  "elements_of example_response =
     [\<lparr>name = ''a'', start = Some 0, end' = Some 4, func = decode_uint, text_translate = None\<rparr>,
      \<lparr>name = ''b'', start = Some 4, end' = Some 5, func = decode_uint,
        text_translate = Some [(0, ''off''), (7, ''on'')]\<rparr>]"
  by (simp add: elements_of_def example_response_def)

lemma example_response_empty_table_elements:
  "elements_of example_response_empty_table =
     [\<lparr>name = ''a'', start = Some 0, end' = Some 4, func = decode_uint, text_translate = None\<rparr>,
      \<lparr>name = ''b'', start = Some 4, end' = Some 5, func = decode_uint,
        text_translate = Some []\<rparr>]"
  by (simp add: elements_of_def example_response_empty_table_def)

lemma example_response_same_name_elements:
  "elements_of example_response_same_name =
     [\<lparr>name = ''a'', start = Some 0, end' = Some 4, func = decode_uint, text_translate = None\<rparr>,
      \<lparr>name = ''a'', start = Some 4, end' = Some 5, func = decode_uint, text_translate = None\<rparr>]"
  by (simp add: elements_of_def example_response_same_name_def)

lemma example_request_same_name_elements:
  "elements_of example_request_same_name =
     [\<lparr>name = ''a'', start = Some 0, end' = Some 4, func = encode_uint 4, text_translate = None\<rparr>,
      \<lparr>name = ''a'', start = Some 4, end' = Some 5, func = encode_uint 1, text_translate = None\<rparr>]"
  by (simp add: elements_of_def example_request_same_name_def)

lemma example_slices:
  "py_slice [0, 0, 0, 42, 7 :: byte] (Some 0) (Some 4) = [0, 0, 0, 42]"
  "py_slice [0, 0, 0, 42, 7 :: byte] (Some 4) (Some 5) = [7]"
  "py_slice [0, 0, 0, 42, 9 :: byte] (Some 0) (Some 4) = [0, 0, 0, 42]"
  "py_slice [0, 0, 0, 42, 9 :: byte] (Some 4) (Some 5) = [9]"
  by (simp_all add: py_slice_def)

lemma example_decodes:
  "decode_uint [0, 0, 0, 42] = Inr 42" "decode_uint [7] = Inr 7" "decode_uint [9] = Inr 9"
  by (simp_all add: decode_uint_def bytes_to_int_def)

lemma example_parse:
  "parse_message example_response [0, 0, 0, 42, 7] =
     Inr [(''a'', Decoded 42), (''b'', Decoded 7), (''b_text'', Text ''on'')]"
  by (simp add: parse_message_entries example_response_elements decode_field_def
        example_slices example_decodes all_entries_def field_entries_def text_entries_def
        od_assign_simps)

lemma example_parse_unknown:
  "parse_message example_response [0, 0, 0, 42, 9] =
     Inr [(''a'', Decoded 42), (''b'', Decoded 9), (''b_text'', Text ''unknown value'')]"
  by (simp add: parse_message_entries example_response_elements decode_field_def
        example_slices example_decodes all_entries_def field_entries_def text_entries_def
        od_assign_simps)

lemma example_parse_empty_table:
  "parse_message example_response_empty_table [0, 0, 0, 42, 7] =
     Inr [(''a'', Decoded 42), (''b'', Decoded 7)]"
  by (simp add: parse_message_entries example_response_empty_table_elements decode_field_def
        example_slices example_decodes all_entries_def field_entries_def text_entries_def
        od_assign_simps)

lemma example_parse_same_name:
  "parse_message example_response_same_name [0, 0, 0, 42, 7] = Inr [(''a'', Decoded 7)]"
  by (simp add: parse_message_entries example_response_same_name_elements decode_field_def
        example_slices example_decodes all_entries_def field_entries_def text_entries_def
        od_assign_simps)

lemma example_consistent:
  "codec_consistent 0 (elements_of example_request) (elements_of example_response)"
  using encode_uint_decode_uint [of 4] encode_uint_decode_uint [of 1]
  by (simp add: example_elements example_response_elements)

lemma example_consistent_empty_table:
  "codec_consistent 0 (elements_of example_request) (elements_of example_response_empty_table)"
  using encode_uint_decode_uint [of 4] encode_uint_decode_uint [of 1]
  by (simp add: example_elements example_response_empty_table_elements)

lemma example_consistent_same_name:
  "codec_consistent 0 (elements_of example_request_same_name)
     (elements_of example_response_same_name)"
  using encode_uint_decode_uint [of 4] encode_uint_decode_uint [of 1]
  by (simp add: example_request_same_name_elements example_response_same_name_elements)

lemma example_same_name_key: "key example_request_same_name = [0xAA, 0xBB, 0xCC]"
  by (simp add: example_request_same_name_def)

lemma long_form_not_9: "(128 :: byte) OR x \<noteq> 9"
proof
  assume "128 OR x = 9"
  then have "bit (128 OR x) 7 = bit (9 :: byte) 7" by simp
  then show False by (simp add: bit_or_iff)
qed

lemma example_construct_same_name:
  "construct_message example_world example_request_same_name [42, 7] Map.empty =
     (Inr [0x06, 0x0E, 0x2B, 0x34, 0x02, 0x05, 0x01, 0x0A, 0x0E, 0x10, 0x01, 0x01, 0x01,
           0xAA, 0xBB, 0xCC, 9, 0, 0, 0, 1, 0, 0, 0, 42, 7],
      example_world\<lparr>REQUEST_ID := 1\<rparr>)"
  by (simp add: construct_message_fields example_request_same_name_elements encode_uint_4
        encode_uint_1 correlation_id_def example_world_def int_to_bytes_4 encode_ber_def
        HEADER_bytes example_same_name_key)

subsection \<open>What \<open>parse_message\<close> binds\<close>

text \<open>
  C4, as amended. \<open>parse_message\<close> takes the fields in schema order, applies the
  decoder of each to the slice \<open>payload[start:end]\<close> and fails with the exception of
  the first decoder that raises. Otherwise it returns the result of assigning, in that
  order, each field's name to its decoded value and, exactly for the fields whose
  translation table is not empty, the name followed by \<open>_text\<close> to the table's text
  for the decoded value, or to \<open>unknown value\<close> when the table has no such key. When
  the keys so assigned are pairwise distinct, the returned mapping is exactly this list
  of bindings, in processing order.
\<close>

theorem parse_message_bindings:
  "parse_message m payload =
     (case first_failure (map (decode_field payload) (elements_of m)) of
        Inl err \<Rightarrow> Inl err
      | Inr vs \<Rightarrow> Inr (od_assign [] (all_entries (elements_of m) vs)))
   \<and> (distinct (concat (map entry_keys (elements_of m)))
        \<and> length vs = length (elements_of m)
        \<and> (\<forall>i<length (elements_of m).
              func (elements_of m ! i)
                (py_slice payload (start (elements_of m ! i)) (end' (elements_of m ! i)))
              = Inr (vs ! i))
       \<longrightarrow> parse_message m payload = Inr (all_entries (elements_of m) vs))
   \<and> map_of (field_entries e v) (name e) = Some (Decoded v)
   \<and> map_of (field_entries e v) (name e @ ''_text'') =
       (case text_translate e of
          None \<Rightarrow> None
        | Some [] \<Rightarrow> None
        | Some (t # ts) \<Rightarrow>
            Some (Text (case map_of (t # ts) v of Some s \<Rightarrow> s | None \<Rightarrow> ''unknown value'')))
   \<and> map fst (field_entries e v) =
       name e # (if text_translate e = None \<or> text_translate e = Some [] then []
                 else [name e @ ''_text''])"
proof (intro conjI impI)
  show "parse_message m payload =
     (case first_failure (map (decode_field payload) (elements_of m)) of
        Inl err \<Rightarrow> Inl err
      | Inr vs \<Rightarrow> Inr (od_assign [] (all_entries (elements_of m) vs)))"
    by (rule parse_message_entries)
next
  assume a: "distinct (concat (map entry_keys (elements_of m)))
        \<and> length vs = length (elements_of m)
        \<and> (\<forall>i<length (elements_of m).
              func (elements_of m ! i)
                (py_slice payload (start (elements_of m ! i)) (end' (elements_of m ! i)))
              = Inr (vs ! i))"
  then have "map (decode_field payload) (elements_of m) = map Inr vs"
    unfolding map_upt_eq_map_iff2 by (simp add: decode_field_def)
  with a show "parse_message m payload = Inr (all_entries (elements_of m) vs)"
    by (simp add: parse_message_distinct)
next
  show "map_of (field_entries e v) (name e) = Some (Decoded v)"
    by (simp add: field_entries_def)
  show "map_of (field_entries e v) (name e @ ''_text'') =
       (case text_translate e of
          None \<Rightarrow> None
        | Some [] \<Rightarrow> None
        | Some (t # ts) \<Rightarrow>
            Some (Text (case map_of (t # ts) v of Some s \<Rightarrow> s | None \<Rightarrow> ''unknown value'')))"
  proof (cases "text_translate e")
    case None
    then show ?thesis by (simp add: field_entries_def text_entries_def)
  next
    case (Some table)
    show ?thesis
    proof (cases table)
      case Nil
      with Some show ?thesis by (simp add: field_entries_def text_entries_def)
    next
      case (Cons t ts)
      have "map_of ((name e, x) # kvs) (name e @ ''_text'') =
            map_of kvs (name e @ ''_text'')" for x :: "'b entry" and kvs
        by simp
      with Some Cons show ?thesis
        by (simp add: field_entries_def text_entries_def del: map_of.simps)
    qed
  qed
  show "map fst (field_entries e v) =
       name e # (if text_translate e = None \<or> text_translate e = Some [] then []
                 else [name e @ ''_text''])"
    by (simp add: field_entries_def text_entries_def split: option.splits list.splits)
qed

text \<open>
  The claim C4 as stated fails for a field whose table is the empty dictionary: the
  field has a table, and the program adds no \<open>_text\<close> binding for it.
\<close>

theorem parse_message_empty_table_counterexample:
  "text_translate (elements_of example_response_empty_table ! 1) = Some []
   \<and> parse_message example_response_empty_table [0, 0, 0, 42, 7] =
       Inr [(''a'', Decoded 42), (''b'', Decoded 7)]
   \<and> claimed_entries (elements_of example_response_empty_table ! 1) 7 =
       [(''b'', Decoded 7), (''b_text'', Text ''unknown value'')]
   \<and> parse_message example_response_empty_table [0, 0, 0, 42, 7] \<noteq>
       Inr (claimed_entries (elements_of example_response_empty_table ! 0) 42
            @ claimed_entries (elements_of example_response_empty_table ! 1) 7)"
  by (simp add: example_parse_empty_table)
     (simp add: example_response_empty_table_elements claimed_entries_def)

theorem parse_message_bindings_witness:
  "parse_message example_response [0, 0, 0, 42, 7] =
     Inr [(''a'', Decoded 42), (''b'', Decoded 7), (''b_text'', Text ''on'')]
   \<and> parse_message example_response [0, 0, 0, 42, 9] =
     Inr [(''a'', Decoded 42), (''b'', Decoded 9), (''b_text'', Text ''unknown value'')]"
proof -
  have d: "distinct (concat (map entry_keys (elements_of example_response)))"
    by (simp add: example_response_elements entry_keys_def)
  have l: "length [42, 7 :: int] = length (elements_of example_response)"
    "length [42, 9 :: int] = length (elements_of example_response)"
    by (simp_all add: example_response_elements)
  have f7: "\<forall>i<length (elements_of example_response).
              func (elements_of example_response ! i)
                (py_slice [0, 0, 0, 42, 7] (start (elements_of example_response ! i))
                   (end' (elements_of example_response ! i)))
              = Inr ([42, 7] ! i)"
    by (simp add: example_response_elements less_Suc_eq example_slices example_decodes)
  have f9: "\<forall>i<length (elements_of example_response).
              func (elements_of example_response ! i)
                (py_slice [0, 0, 0, 42, 9] (start (elements_of example_response ! i))
                   (end' (elements_of example_response ! i)))
              = Inr ([42, 9] ! i)"
    by (simp add: example_response_elements less_Suc_eq example_slices example_decodes)
  have "parse_message example_response [0, 0, 0, 42, 7] =
          Inr (all_entries (elements_of example_response) [42, 7])"
    by (rule mp [OF parse_message_bindings
          [of example_response "[0, 0, 0, 42, 7]" "[42, 7]", THEN conjunct2, THEN conjunct1]])
       (intro conjI d l(1) f7)
  moreover have "parse_message example_response [0, 0, 0, 42, 9] =
          Inr (all_entries (elements_of example_response) [42, 9])"
    by (rule mp [OF parse_message_bindings
          [of example_response "[0, 0, 0, 42, 9]" "[42, 9]", THEN conjunct2, THEN conjunct1]])
       (intro conjI d l(2) f9)
  ultimately show ?thesis
    by (simp add: example_response_elements all_entries_def field_entries_def text_entries_def)
qed

subsection \<open>Constructing, then parsing\<close>

text \<open>
  C2, as amended. Let a request schema and a response schema describe the same fields
  (\<open>codec_consistent\<close>), and let the keys that parsing assigns be pairwise distinct.
  Then the payload body of a frame that \<open>construct_message\<close> built, which is what
  follows the correlation id, parses to the values the arguments resolved to, in field
  order, each under its field's name, with a \<open>_text\<close> binding after it exactly for the
  fields whose translation table is not empty.
\<close>

theorem construct_parse_roundtrip:
  assumes built: "fst (construct_message w req args kwargs) = Inr frame"
    and consistent: "codec_consistent 0 (elements_of req) (elements_of resp)"
    and keys: "distinct (concat (map entry_keys (elements_of resp)))"
  shows "\<exists>body vs.
           frame = HEADER @ key req
                     @ encode_ber (length (int_to_bytes (correlation_id w) 4 @ body))
                     @ int_to_bytes (correlation_id w) 4 @ body
         \<and> length vs = length (elements_of req)
         \<and> (\<forall>i<length (elements_of req).
               resolved (elements_of req) args kwargs i = Some (vs ! i))
         \<and> parse_message resp body = Inr (all_entries (elements_of resp) vs)
         \<and> map fst (all_entries (elements_of resp) vs) =
             concat (map entry_keys (elements_of resp))"
proof -
  from built obtain bs where
    bs: "construct_elements (elements_of req) args kwargs 0 [] = Inr bs"
    and frame: "frame = HEADER @ key req
                     @ encode_ber (length (int_to_bytes (correlation_id w) 4 @ concat bs))
                     @ int_to_bytes (correlation_id w) 4 @ concat bs"
    unfolding construct_message_Inr by blast
  from bs have len: "length bs = length (elements_of req)"
    and each: "\<forall>i<length (elements_of req).
      \<exists>v. resolved (elements_of req) args kwargs i = Some v
         \<and> func (elements_of req ! i) v = Inr (bs ! i)"
    unfolding construct_elements_Inr by blast+
  define vs where
    "vs = map (\<lambda>i. the (resolved (elements_of req) args kwargs i)) [0..<length (elements_of req)]"
  have lvs: "length vs = length (elements_of req)" by (simp add: vs_def)
  have res: "\<forall>i<length (elements_of req).
      resolved (elements_of req) args kwargs i = Some (vs ! i)
      \<and> func (elements_of req ! i) (vs ! i) = Inr (bs ! i)"
  proof (intro allI impI)
    fix i assume i: "i < length (elements_of req)"
    with each obtain v where "resolved (elements_of req) args kwargs i = Some v"
      "func (elements_of req ! i) v = Inr (bs ! i)" by blast
    with i show "resolved (elements_of req) args kwargs i = Some (vs ! i)
      \<and> func (elements_of req ! i) (vs ! i) = Inr (bs ! i)"
      by (simp add: vs_def)
  qed
  have "map (decode_field ([] @ concat bs)) (elements_of resp) = map Inr vs"
    by (rule decode_consistent [OF consistent len lvs]) (use res in simp_all)
  then have dec: "map (decode_field (concat bs)) (elements_of resp) = map Inr vs" by simp
  have parse: "parse_message resp (concat bs) = Inr (all_entries (elements_of resp) vs)"
    by (rule parse_message_distinct [OF keys dec])
  have "length vs = length (elements_of resp)"
    using lvs codec_consistent_length [OF consistent] by simp
  then have ks: "map fst (all_entries (elements_of resp) vs) =
             concat (map entry_keys (elements_of resp))"
    by (rule keys_all_entries)
  from frame lvs res parse ks show ?thesis by blast
qed

text \<open>
  The claim C2 as stated fails in two ways: a field with an empty translation table
  carries a table and gets no \<open>_text\<close> binding; and of two fields with the same name
  only the value of the last is in the mapping.
\<close>

theorem construct_parse_roundtrip_counterexample:
  "fst (construct_message example_world example_request [42] [''b'' \<mapsto> 7]) =
      Inr ([0x06, 0x0E, 0x2B, 0x34, 0x02, 0x05, 0x01, 0x0A, 0x0E, 0x10, 0x01, 0x01, 0x01,
            0xAA, 0xBB, 0xCC, 9, 0, 0, 0, 1] @ [0, 0, 0, 42, 7])
   \<and> codec_consistent 0 (elements_of example_request) (elements_of example_response_empty_table)
   \<and> text_translate (elements_of example_response_empty_table ! 1) = Some []
   \<and> parse_message example_response_empty_table [0, 0, 0, 42, 7] =
       Inr [(''a'', Decoded 42), (''b'', Decoded 7)]
   \<and> fst (construct_message example_world example_request_same_name [42, 7] Map.empty) =
      Inr ([0x06, 0x0E, 0x2B, 0x34, 0x02, 0x05, 0x01, 0x0A, 0x0E, 0x10, 0x01, 0x01, 0x01,
            0xAA, 0xBB, 0xCC, 9, 0, 0, 0, 1] @ [0, 0, 0, 42, 7])
   \<and> codec_consistent 0 (elements_of example_request_same_name)
        (elements_of example_response_same_name)
   \<and> parse_message example_response_same_name [0, 0, 0, 42, 7] = Inr [(''a'', Decoded 7)]"
  by (simp add: example_construct example_construct_same_name example_consistent_empty_table
        example_consistent_same_name example_parse_empty_table example_parse_same_name)
     (simp add: example_response_empty_table_elements)

theorem construct_parse_roundtrip_witness:
  "\<exists>body vs.
     fst (construct_message example_world example_request [42] [''b'' \<mapsto> 7]) =
       Inr ([0x06, 0x0E, 0x2B, 0x34, 0x02, 0x05, 0x01, 0x0A, 0x0E, 0x10, 0x01, 0x01, 0x01,
             0xAA, 0xBB, 0xCC, 9, 0, 0, 0, 1] @ body)
     \<and> vs = [42, 7]
     \<and> parse_message example_response body =
         Inr [(''a'', Decoded 42), (''b'', Decoded 7), (''b_text'', Text ''on'')]"
proof -
  have built: "fst (construct_message example_world example_request [42] [''b'' \<mapsto> 7]) =
      Inr [0x06, 0x0E, 0x2B, 0x34, 0x02, 0x05, 0x01, 0x0A, 0x0E, 0x10, 0x01, 0x01, 0x01,
           0xAA, 0xBB, 0xCC, 9, 0, 0, 0, 1, 0, 0, 0, 42, 7]"
    by (simp add: example_construct)
  have keys: "distinct (concat (map entry_keys (elements_of example_response)))"
    by (simp add: example_response_elements entry_keys_def)
  from construct_parse_roundtrip [OF built example_consistent keys]
  obtain body vs where
    f: "[0x06, 0x0E, 0x2B, 0x34, 0x02, 0x05, 0x01, 0x0A, 0x0E, 0x10, 0x01, 0x01, 0x01,
           0xAA, 0xBB, 0xCC, 9, 0, 0, 0, 1, 0, 0, 0, 42, 7]
        = HEADER @ key example_request
            @ encode_ber (length (int_to_bytes (correlation_id example_world) 4 @ body))
            @ int_to_bytes (correlation_id example_world) 4 @ body"
    and l: "length vs = length (elements_of example_request)"
    and r: "\<forall>i<length (elements_of example_request).
               resolved (elements_of example_request) [42] [''b'' \<mapsto> 7] i = Some (vs ! i)"
    and p: "parse_message example_response body = Inr (all_entries (elements_of example_response) vs)"
    by blast
  from l obtain x y where vs: "vs = [x, y]"
    by (cases vs; cases "tl vs") (auto simp: example_elements)
  from r vs have "x = 42" "y = 7"
    by (auto simp: example_elements resolved_def unnamed_before_def less_Suc_eq)
  with vs have v: "vs = [42, 7]" by simp
  from p v have "parse_message example_response body =
         Inr [(''a'', Decoded 42), (''b'', Decoded 7), (''b_text'', Text ''on'')]"
    by (simp add: example_response_elements all_entries_def field_entries_def text_entries_def)
  moreover from f have "body = [0, 0, 0, 42, 7]"
    by (cases "length body < 124")
       (auto simp: HEADER_bytes example_key correlation_id_def example_world_def int_to_bytes_4
          encode_ber_def Let_def long_form_not_9 split: if_splits)
  ultimately show ?thesis using built v by simp
qed

subsection \<open>The wire trace\<close>

lemma py_slice_drop: "py_slice xs (Some (int n)) None = drop n xs"
  by (simp add: py_slice_def Let_def min_def)

lemma py_slice_take: "py_slice xs (Some 0) (Some (int n)) = take n xs"
  by (simp add: py_slice_def Let_def min_def)

lemma bytes_to_hex_length: "length (bytes_to_hex bs) = 2 * length bs"
  by (induction bs) (simp_all add: bytes_to_hex_def)

lemma hex_digit_no_dot: "d < 16 \<Longrightarrow> hex_digit d \<noteq> CHR ''.''"
proof -
  assume "d < 16"
  then have "hex_digit d \<in> set ''0123456789abcdef''"
    unfolding hex_digit_def by (intro nth_mem) simp
  then show ?thesis by auto
qed

lemma bytes_to_hex_no_dot: "CHR ''.'' \<notin> set (bytes_to_hex bs)"
proof (induction bs)
  case Nil
  show ?case by (simp add: bytes_to_hex_def)
next
  case (Cons b bs)
  have "unat b < 256" using unsigned_less [of b] by simp
  then have "unat b div 16 < 16" "unat b mod 16 < 16" by simp_all
  then have "hex_digit (unat b div 16) \<noteq> CHR ''.''" "hex_digit (unat b mod 16) \<noteq> CHR ''.''"
    by (simp_all add: hex_digit_no_dot)
  with Cons show ?case by (auto simp: bytes_to_hex_def)
qed

lemma bytes_to_hex_no_ellipsis: "bytes_to_hex bs \<noteq> s @ ''...''"
proof
  assume "bytes_to_hex bs = s @ ''...''"
  then have "CHR ''.'' \<in> set (bytes_to_hex bs)" by simp
  with bytes_to_hex_no_dot show False by blast
qed

lemma explain_klv_fields_short_hex:
  assumes "explain_klv_fields cat data = Inr f"
  shows "\<exists>n ber_size. decode_ber (drop 16 data) = Inr (n, ber_size)
           \<and> short_hex f =
               (if length data > 40 then take 40 (bytes_to_hex (drop (20 + ber_size) data)) @ ''...''
                else bytes_to_hex (drop (20 + ber_size) data))"
proof -
  have p16: "py_slice data (Some 16) None = drop 16 data"
    using py_slice_drop [of data 16] by simp
  have p20: "py_slice data (Some (20 + int k)) None = drop (20 + k) data" for k
    using py_slice_drop [of data "20 + k"] by simp
  have p40: "py_slice xs (Some 0) (Some 40) = take 40 xs" for xs :: string
    using py_slice_take [of xs 40] by simp
  from assms show ?thesis
    by (auto simp: explain_klv_fields_def Let_def p16 p20 p40
        split: option.splits sum.splits prod.splits if_splits)
qed

lemma example_fields_41:
  "explain_klv_fields example_catalogues example_frame_41 =
     Inr \<lparr>header_hex = ''060e2b340205010a0e10010101'', key_hex = ''aabbcc'',
          key_name = ''Example Request'', ber_hex = ''18'', ber = 24,
          id_hex = ''00000001'', id_int = 1,
          short_hex = ''0102030405060708090a0b0c0d0e0f1011121314...''\<rparr>"
  by (simp add: explain_klv_fields_def example_catalogues_def example_frame_41_def py_slice_def
        bytes_to_hex_def hex_digit_def decode_ber_def bytes_to_int_def example_request_def)

lemma example_fields_26:
  "explain_klv_fields example_catalogues example_frame_26 =
     Inr \<lparr>header_hex = ''060e2b340205010a0e10010101'', key_hex = ''aabbcc'',
          key_name = ''Example Request'', ber_hex = ''09'', ber = 9,
          id_hex = ''00000001'', id_int = 1, short_hex = ''0000002a07''\<rparr>"
  by (simp add: explain_klv_fields_def example_catalogues_def example_frame_26_def py_slice_def
        bytes_to_hex_def hex_digit_def decode_ber_def bytes_to_int_def example_request_def)

lemma example_payload_hex_41:
  "bytes_to_hex (drop 21 example_frame_41) = ''0102030405060708090a0b0c0d0e0f1011121314''"
  by (simp add: example_frame_41_def bytes_to_hex_def hex_digit_def)

text \<open>
  C7, as amended. Where \<open>explain_klv\<close> can take a frame apart, the payload-hex segment
  of its rendering is the first 40 characters of the payload's hex followed by \<open>...\<close>
  exactly when the whole frame is longer than 40 bytes, and is the payload's hex
  unmodified for every frame of at most 40 bytes; a segment ends in \<open>...\<close> in the first
  case only. A payload whose hex is longer than 40 characters always lies in a frame of
  more than 40 bytes.
\<close>

theorem explain_klv_truncation:
  assumes "explain_klv_fields cat data = Inr f"
  shows "explain_klv cat data = Inr (explain_klv_format f)
       \<and> (\<exists>n ber_size. decode_ber (drop 16 data) = Inr (n, ber_size)
           \<and> short_hex f =
               (if length data > 40 then take 40 (bytes_to_hex (drop (20 + ber_size) data)) @ ''...''
                else bytes_to_hex (drop (20 + ber_size) data))
           \<and> ((\<exists>s. short_hex f = s @ ''...'') \<longleftrightarrow> length data > 40)
           \<and> (length (bytes_to_hex (drop (20 + ber_size) data)) > 40 \<longrightarrow> length data > 40))"
proof -
  from explain_klv_fields_short_hex [OF assms] obtain n ber_size where
    d: "decode_ber (drop 16 data) = Inr (n, ber_size)"
    and s: "short_hex f =
               (if length data > 40 then take 40 (bytes_to_hex (drop (20 + ber_size) data)) @ ''...''
                else bytes_to_hex (drop (20 + ber_size) data))"
    by blast
  have e: "(\<exists>s. short_hex f = s @ ''...'') \<longleftrightarrow> length data > 40"
  proof (cases "length data > 40")
    case True
    with s show ?thesis by auto
  next
    case False
    with s show ?thesis by (simp add: bytes_to_hex_no_ellipsis)
  qed
  have l: "length (bytes_to_hex (drop (20 + ber_size) data)) > 40 \<longrightarrow> length data > 40"
    unfolding bytes_to_hex_length length_drop by arith
  have "explain_klv cat data = Inr (explain_klv_format f)"
    using assms by (simp add: explain_klv_def)
  with d s e l show ?thesis by blast
qed

text \<open>
  The claim C7 as stated fails for a frame of 41 bytes whose payload has 20 bytes: the
  payload's hex has 40 characters, which is not more than 40, and the segment is those
  40 characters followed by \<open>...\<close>.
\<close>

theorem explain_klv_truncation_counterexample:
  "bytes_to_hex (drop 21 example_frame_41) = ''0102030405060708090a0b0c0d0e0f1011121314''
   \<and> length (bytes_to_hex (drop 21 example_frame_41)) = 40
   \<and> explain_klv_fields example_catalogues example_frame_41 =
     Inr \<lparr>header_hex = ''060e2b340205010a0e10010101'', key_hex = ''aabbcc'',
          key_name = ''Example Request'', ber_hex = ''18'', ber = 24,
          id_hex = ''00000001'', id_int = 1,
          short_hex = ''0102030405060708090a0b0c0d0e0f1011121314'' @ ''...''\<rparr>"
  by (simp add: example_fields_41 example_payload_hex_41)

theorem explain_klv_truncation_witness:
  "length example_frame_41 = 41
   \<and> map_sum id short_hex (explain_klv_fields example_catalogues example_frame_41) =
       Inr (take 40 (bytes_to_hex (drop 21 example_frame_41)) @ ''...'')
   \<and> length example_frame_26 = 26
   \<and> map_sum id short_hex (explain_klv_fields example_catalogues example_frame_26) =
       Inr (bytes_to_hex (drop 21 example_frame_26))"
proof -
  have d41: "decode_ber (drop 16 example_frame_41) = Inr (24, 1)"
    and d26: "decode_ber (drop 16 example_frame_26) = Inr (9, 1)"
    by (simp_all add: example_frame_41_def example_frame_26_def decode_ber_def)
  have l: "length example_frame_41 = 41" "length example_frame_26 = 26"
    by (simp_all add: example_frame_41_def example_frame_26_def)
  from explain_klv_truncation [OF example_fields_41] d41 l(1)
  have "short_hex \<lparr>header_hex = ''060e2b340205010a0e10010101'', key_hex = ''aabbcc'',
          key_name = ''Example Request'', ber_hex = ''18'', ber = 24,
          id_hex = ''00000001'', id_int = 1,
          short_hex = ''0102030405060708090a0b0c0d0e0f1011121314...''\<rparr>
        = take 40 (bytes_to_hex (drop 21 example_frame_41)) @ ''...''"
    by auto
  moreover
  from explain_klv_truncation [OF example_fields_26] d26 l(2)
  have "short_hex \<lparr>header_hex = ''060e2b340205010a0e10010101'', key_hex = ''aabbcc'',
          key_name = ''Example Request'', ber_hex = ''09'', ber = 9,
          id_hex = ''00000001'', id_int = 1, short_hex = ''0000002a07''\<rparr>
        = bytes_to_hex (drop 21 example_frame_26)"
    by auto
  ultimately show ?thesis
    using l by (simp add: example_fields_41 example_fields_26)
qed

subsection \<open>Sending\<close>

lemma example_construct_26:
  "construct_message example_world (request_definition (example_call dbg)) [42] [''b'' \<mapsto> 7] =
     (Inr example_frame_26, example_world\<lparr>REQUEST_ID := 1\<rparr>)"
  by (simp add: example_call_def example_construct example_frame_26_def)

text \<open>
  What \<open>send\<close> does once the frame is built and the socket takes the write: the
  frame is handed to the socket once; with debug mode off the status 0 is returned,
  with debug mode on NameError is raised. In both cases nothing is logged.
\<close>

lemma send_outcome:
  assumes built: "construct_message w (request_definition self) args kwargs = (Inr frame, w1)"
    and up: "sock_up w"
    and kw: "kwargs ''self'' = None" "kwargs ''message'' = None"
  shows "send self args kwargs w =
           (if debug self then Inl NameError else Inr 0,
            w\<lparr>REQUEST_ID := correlation_id w, sock_out := sock_out w @ [frame]\<rparr>)"
proof -
  from built have w1: "w1 = w\<lparr>REQUEST_ID := correlation_id w\<rparr>"
    by (cases "construct_elements (elements_of (request_definition self)) args kwargs 0 []")
       (simp_all add: construct_message_fields)
  have s: "sock_send frame (w\<lparr>REQUEST_ID := correlation_id w\<rparr>) =
             (Inr (), w\<lparr>REQUEST_ID := correlation_id w, sock_out := sock_out w @ [frame]\<rparr>)"
    using up by (simp add: sock_send_def)
  from built w1 have built': "construct_message_call w (request_definition self) args kwargs =
      (Inr frame, w\<lparr>REQUEST_ID := correlation_id w\<rparr>)"
    by (simp add: construct_message_call_body kw(2))
  show ?thesis
    by (simp add: send_def kw(1) built' s)
qed

text \<open>
  C8. The program does not do what the claim says when debug mode is enabled. At the
  example request, with the arguments \<open>42\<close> and \<open>b = 7\<close>, an open socket and the
  request id counter at 0: with debug mode off, \<open>send\<close> hands the frame of 26 bytes
  to the socket, once, and returns 0, as the claim says; with debug mode on it hands
  the same frame to the socket and then raises NameError, so that no status is returned
  and nothing is rendered or logged.
\<close>

theorem send_debug_raises_NameError:
  "send (example_call False) [42] [''b'' \<mapsto> 7] example_world =
     (Inr 0, example_world\<lparr>REQUEST_ID := 1, sock_out := [example_frame_26]\<rparr>)
   \<and> send (example_call True) [42] [''b'' \<mapsto> 7] example_world =
     (Inl NameError, example_world\<lparr>REQUEST_ID := 1, sock_out := [example_frame_26]\<rparr>)
   \<and> logged (snd (send (example_call True) [42] [''b'' \<mapsto> 7] example_world)) = []"
proof -
  have up: "sock_up example_world" by (simp add: example_world_def)
  have k: "[''b'' \<mapsto> (7::int)] ''self'' = None" "[''b'' \<mapsto> (7::int)] ''message'' = None"
    by simp_all
  have d: "\<not> debug (example_call False)" "debug (example_call True)"
    by (simp_all add: example_call_def)
  have c: "correlation_id example_world = 1" "sock_out example_world = []"
    "logged example_world = []"
    by (simp_all add: correlation_id_def example_world_def)
  have off: "send (example_call False) [42] [''b'' \<mapsto> 7] example_world =
     (Inr 0, example_world\<lparr>REQUEST_ID := 1, sock_out := [example_frame_26]\<rparr>)"
    unfolding send_outcome [OF example_construct_26 [of False] up k]
    by (simp add: d c)
  have on: "send (example_call True) [42] [''b'' \<mapsto> 7] example_world =
     (Inl NameError, example_world\<lparr>REQUEST_ID := 1, sock_out := [example_frame_26]\<rparr>)"
    unfolding send_outcome [OF example_construct_26 [of True] up k]
    by (simp add: d c)
  have "logged (snd (send (example_call True) [42] [''b'' \<mapsto> 7] example_world)) = []"
    unfolding on by (simp add: c)
  with off on show ?thesis by (simp only: simp_thms)
qed

subsection \<open>Receiving\<close>

lemma sock_receive_append:
  "sock_in w = xs @ ys \<Longrightarrow> length xs = n \<Longrightarrow>
   sock_receive (int n) w = (Inr xs, w\<lparr>sock_in := ys\<rparr>)"
  by (simp add: sock_receive_def)

lemma ber_from_socket_field:
  assumes "sock_in w = b @ ys" "ber_field b"
  shows "ber_from_socket w = (Inr (ber_length b, length b, b), w\<lparr>sock_in := ys\<rparr>)"
proof -
  from assms(2) obtain c cs where b: "b = c # cs" by (cases b) (simp_all add: ber_field_def)
  have first: "sock_receive 1 w = (Inr [c], w\<lparr>sock_in := cs @ ys\<rparr>)"
    using sock_receive_append [of w "[c]" "cs @ ys" 1] assms(1) b by simp
  show ?thesis
  proof (cases "c < 0x80")
    case True
    with assms(2) b have "cs = []" by (simp add: ber_field_def)
    with True first b show ?thesis
      by (simp add: ber_from_socket_def ber_length_def)
  next
    case False
    with assms(2) b have l: "length cs = unat (c AND 0x7F)" by (simp add: ber_field_def)
    have "sock_receive (int (unat (c AND 0x7F))) (w\<lparr>sock_in := cs @ ys\<rparr>) =
            (Inr cs, w\<lparr>sock_in := cs @ ys\<rparr>\<lparr>sock_in := ys\<rparr>)"
      by (rule sock_receive_append) (simp_all add: l)
    with False first b l show ?thesis
      by (simp add: ber_from_socket_def ber_length_def Let_def)
  qed
qed

lemma receive_value_eq:
  assumes inp: "sock_in w = h @ k @ b @ i @ rest"
    and lens: "length h = 13" "length k = 3" "length i = 4"
    and ber: "ber_field b"
  shows "fst (receive cat self w) = receive_value cat self k b rest"
proof -
  have r1: "sock_receive 13 w = (Inr h, w\<lparr>sock_in := k @ b @ i @ rest\<rparr>)"
    using sock_receive_append [OF inp lens(1)] by simp
  have r2: "sock_receive 3 (w\<lparr>sock_in := k @ b @ i @ rest\<rparr>) =
              (Inr k, w\<lparr>sock_in := b @ i @ rest\<rparr>)"
    using sock_receive_append [of "w\<lparr>sock_in := k @ b @ i @ rest\<rparr>" k "b @ i @ rest" 3] lens(2)
    by simp
  have r3: "ber_from_socket (w\<lparr>sock_in := b @ i @ rest\<rparr>) =
              (Inr (ber_length b, length b, b), w\<lparr>sock_in := i @ rest\<rparr>)"
    using ber_from_socket_field [of "w\<lparr>sock_in := b @ i @ rest\<rparr>" b "i @ rest"] ber by simp
  have r4: "sock_receive 4 (w\<lparr>sock_in := i @ rest\<rparr>) = (Inr i, w\<lparr>sock_in := rest\<rparr>)"
    using sock_receive_append [of "w\<lparr>sock_in := i @ rest\<rparr>" i rest 4] lens(3) by simp
  show ?thesis
  proof (cases "ber_length b - 4 < 0 \<or> int (length rest) < ber_length b - 4")
    case True
    then have "sock_receive (ber_length b - 4) (w\<lparr>sock_in := rest\<rparr>) =
                 (Inl TransportError, w\<lparr>sock_in := rest\<rparr>)"
      by (simp add: sock_receive_def)
    with True show ?thesis
      by (simp add: receive_def r1 r2 r3 r4 receive_value_def)
  next
    case False
    then have r5: "sock_receive (ber_length b - 4) (w\<lparr>sock_in := rest\<rparr>) =
        (Inr (take (nat (ber_length b - 4)) rest),
         w\<lparr>sock_in := drop (nat (ber_length b - 4)) rest\<rparr>)"
      by (simp add: sock_receive_def)
    from False show ?thesis
      by (cases "responses_get_by_key cat k")
         (simp_all add: receive_def r1 r2 r3 r4 r5 receive_value_def)
  qed
qed

lemma example_receive_value:
  "receive_value example_response_catalogues (example_call False) [0xAA, 0xBB, 0xCC] [9]
     [0, 0, 0, 42, 7] =
     Inr [(''a'', Decoded 42), (''b'', Decoded 7), (''b_text'', Text ''on'')]"
  by (simp add: receive_value_def ber_length_def example_response_catalogues_def
        example_call_def example_parse)

text \<open>
  C6. Two executions of \<open>receive\<close> to which the socket delivers the same key, the same
  length field and the same bytes after the correlation id return the same value,
  whatever the 4 bytes of the correlation id are in each, and whatever the request id
  counter is: the id read from the socket is compared with nothing.
\<close>

theorem receive_ignores_correlation_id:
  assumes "sock_in w1 = h1 @ k @ b @ i1 @ rest" "sock_in w2 = h2 @ k @ b @ i2 @ rest"
    and "length h1 = 13" "length h2 = 13" "length k = 3" "length i1 = 4" "length i2 = 4"
    and "ber_field b"
  shows "fst (receive cat self w1) = fst (receive cat self w2)"
proof -
  have "fst (receive cat self w1) = receive_value cat self k b rest"
    by (rule receive_value_eq [OF assms(1) assms(3) assms(5) assms(6) assms(8)])
  moreover have "fst (receive cat self w2) = receive_value cat self k b rest"
    by (rule receive_value_eq [OF assms(2) assms(4) assms(5) assms(7) assms(8)])
  ultimately show ?thesis by simp
qed

theorem receive_ignores_correlation_id_witness:
  "fst (receive example_response_catalogues (example_call False)
          (example_world
             \<lparr>sock_in := [0x06, 0x0E, 0x2B, 0x34, 0x02, 0x05, 0x01, 0x0A, 0x0E, 0x10, 0x01, 0x01, 0x01]
                  @ [0xAA, 0xBB, 0xCC] @ [9] @ [0, 0, 0, 1] @ [0, 0, 0, 42, 7]\<rparr>))
   = fst (receive example_response_catalogues (example_call False)
          (example_world
             \<lparr>REQUEST_ID := 1,
              sock_in := [0x06, 0x0E, 0x2B, 0x34, 0x02, 0x05, 0x01, 0x0A, 0x0E, 0x10, 0x01, 0x01, 0x01]
                  @ [0xAA, 0xBB, 0xCC] @ [9] @ [0, 0, 0, 99] @ [0, 0, 0, 42, 7]\<rparr>))
   \<and> fst (receive example_response_catalogues (example_call False)
          (example_world
             \<lparr>REQUEST_ID := 1,
              sock_in := [0x06, 0x0E, 0x2B, 0x34, 0x02, 0x05, 0x01, 0x0A, 0x0E, 0x10, 0x01, 0x01, 0x01]
                  @ [0xAA, 0xBB, 0xCC] @ [9] @ [0, 0, 0, 99] @ [0, 0, 0, 42, 7]\<rparr>))
   = Inr [(''a'', Decoded 42), (''b'', Decoded 7), (''b_text'', Text ''on'')]"
proof -
  let ?h = "[0x06, 0x0E, 0x2B, 0x34, 0x02, 0x05, 0x01, 0x0A, 0x0E, 0x10, 0x01, 0x01, 0x01] :: bytes"
  let ?w1 = "example_world\<lparr>sock_in := ?h @ [0xAA, 0xBB, 0xCC] @ [9] @ [0, 0, 0, 1] @ [0, 0, 0, 42, 7]\<rparr>"
  let ?w2 = "example_world\<lparr>REQUEST_ID := 1,
               sock_in := ?h @ [0xAA, 0xBB, 0xCC] @ [9] @ [0, 0, 0, 99] @ [0, 0, 0, 42, 7]\<rparr>"
  have i1: "sock_in ?w1 = ?h @ [0xAA, 0xBB, 0xCC] @ [9] @ [0, 0, 0, 1] @ [0, 0, 0, 42, 7]"
    and i2: "sock_in ?w2 = ?h @ [0xAA, 0xBB, 0xCC] @ [9] @ [0, 0, 0, 99] @ [0, 0, 0, 42, 7]"
    by simp_all
  have l: "length ?h = 13" "length [0xAA, 0xBB, 0xCC :: byte] = 3"
    "length [0, 0, 0, 1 :: byte] = 4" "length [0, 0, 0, 99 :: byte] = 4"
    by simp_all
  have b: "ber_field [9]" by (simp add: ber_field_def)
  have "fst (receive example_response_catalogues (example_call False) ?w1)
        = fst (receive example_response_catalogues (example_call False) ?w2)"
    by (rule receive_ignores_correlation_id [OF i1 i2 l(1) l(1) l(2) l(3) l(4) b])
  moreover have "fst (receive example_response_catalogues (example_call False) ?w2)
        = Inr [(''a'', Decoded 42), (''b'', Decoded 7), (''b_text'', Text ''on'')]"
    using receive_value_eq [OF i2 l(1) l(2) l(4) b, of example_response_catalogues "example_call False"]
    by (simp only: example_receive_value)
  ultimately show ?thesis by (simp only:)
qed

end
